theory Spec2Isabelle
  imports Main
begin

section \<open>Python values used by the sandbox and the repair loop\<close>

text \<open>
  An insertion-ordered Python \<open>dict\<close> with string keys is an association list whose keys
  are kept distinct by \<open>dict_set\<close>: assigning to a key that is present replaces the value in
  place, assigning to a new key appends it, as \<open>d[k] = v\<close> does.
\<close>

type_synonym 'v pydict = "(string \<times> 'v) list"

definition dict_keys :: "'v pydict \<Rightarrow> string list" where
  "dict_keys d = map fst d"

definition dict_contains :: "string \<Rightarrow> 'v pydict \<Rightarrow> bool" where
  "dict_contains k d = (k \<in> set (dict_keys d))"

fun dict_set :: "string \<Rightarrow> 'v \<Rightarrow> 'v pydict \<Rightarrow> 'v pydict" where
  "dict_set k v [] = [(k, v)]"
| "dict_set k v ((k', v') # d) =
     (if k' = k then (k, v) # d else (k', v') # dict_set k v d)"

text \<open>
  Python's \<open>needle in haystack\<close> on two \<open>str\<close> values: the needle occurs as a contiguous
  run of characters somewhere in the haystack. The empty needle occurs in every string.
\<close>

fun starts_with :: "string \<Rightarrow> string \<Rightarrow> bool" where
  "starts_with [] hay = True"
| "starts_with (c # cs) [] = False"
| "starts_with (c # cs) (h # hs) = (c = h \<and> starts_with cs hs)"

fun str_contains :: "string \<Rightarrow> string \<Rightarrow> bool" where
  "str_contains needle [] = starts_with needle []"
| "str_contains needle (h # hs) = (starts_with needle (h # hs) \<or> str_contains needle hs)"

text \<open>The exceptions that the modelled code can meet, each carrying its message.\<close>

datatype error =
    SyntaxError string
  | OSError string
  | ValueError string
  | ValidationError string
  | TypeError string
  | APIError string
  | UnboundLocalError string

fun str_of_error :: "error \<Rightarrow> string" where
  "str_of_error (SyntaxError m) = m"
| "str_of_error (OSError m) = m"
| "str_of_error (ValueError m) = m"
| "str_of_error (ValidationError m) = m"
| "str_of_error (TypeError m) = m"
| "str_of_error (APIError m) = m"
| "str_of_error (UnboundLocalError m) = m"

section \<open>The import analyzer (\<open>CodeExecutor.analyze_imports\<close>)\<close>

text \<open>
  The syntax tree that \<open>ast.parse\<close> returns, reduced to what \<open>analyze_imports\<close> looks at:
  an \<open>ast.Import\<close> node with the dotted names of its aliases, an \<open>ast.ImportFrom\<close> node with
  its \<open>module\<close> attribute (\<open>None\<close> for \<open>from . import x\<close>), and every other node kind with its
  child nodes. The root \<open>ast.Module\<close> is an \<open>Other\<close> node over the statements of the body.
\<close>

datatype node =
    Import "string list"
  | ImportFrom "string option"
  | Other "node list"

fun iter_child_nodes :: "node \<Rightarrow> node list" where
  "iter_child_nodes (Other ns) = ns"
| "iter_child_nodes (Import names) = []"
| "iter_child_nodes (ImportFrom m) = []"

fun node_weight :: "node \<Rightarrow> nat" where
  "node_weight (Other ns) = Suc (sum_list (map node_weight ns))"
| "node_weight (Import names) = 1"
| "node_weight (ImportFrom m) = 1"

text \<open>
  \<open>ast.walk\<close>: breadth first, from a queue; the node taken from the front is yielded and its
  children are put at the back.
\<close>

function walk :: "node list \<Rightarrow> node list" where
  "walk [] = []"
| "walk (n # todo) = n # walk (todo @ iter_child_nodes n)"
  by pat_completeness auto
termination
proof (relation "measure (\<lambda>q. sum_list (map node_weight q))")
  show "wf (measure (\<lambda>q. sum_list (map node_weight q)))" by simp
next
  fix n :: node and todo :: "node list"
  show "(todo @ iter_child_nodes n, n # todo) \<in> measure (\<lambda>q. sum_list (map node_weight q))"
    by (cases n) simp_all
qed

text \<open>\<open>name.split(".")[0]\<close>: the characters before the first dot.\<close>

definition first_segment :: "string \<Rightarrow> string" where
  "first_segment name = takeWhile (\<lambda>c. c \<noteq> CHR ''.'') name"

fun node_imports :: "node \<Rightarrow> string list" where
  "node_imports (Import names) = map first_segment names"
| "node_imports (ImportFrom m) =
     (case m of
        None \<Rightarrow> []
      | Some name \<Rightarrow> if name = [] then [] else [first_segment name])"
| "node_imports (Other ns) = []"

text \<open>
  \<open>ast.parse\<close> belongs to the host interpreter. It is a parameter of the model: a function
  from the source text to the tree, or to the exception it raises on text that is not valid
  Python.
\<close>

type_synonym parser = "string \<Rightarrow> error + node"

definition analyze_imports :: "parser \<Rightarrow> string \<Rightarrow> error + string list" where
  "analyze_imports ast_parse code =
     (case ast_parse code of
        Inl e \<Rightarrow> Inl e
      | Inr tree \<Rightarrow> Inr (concat (map node_imports (walk [tree]))))"

section \<open>The dependency classifier (\<open>CodeExecutor.is_external_module\<close>)\<close>

text \<open>
  A stand-in module as \<open>create_mock_module\<close> builds it. Every \<open>MagicMock()\<close> is a new object;
  its identity is a number drawn from a counter of the interpreter.
\<close>

record mock_module =
  mock_id :: nat
  mock_name :: string
  mock_file :: string
  mock_path :: "string list"
  mock_loader :: nat
  mock_spec :: nat

text \<open>
  The state of one \<open>CodeExecutor\<close>: the stand-ins made so far, and the names that
  \<open>pkgutil.iter_modules()\<close> and \<open>sys.builtin_module_names\<close> listed when it was constructed.
\<close>

record executor =
  mocked_modules :: "mock_module pydict"
  stdlib_modules :: "string set"

definition is_external_module :: "executor \<Rightarrow> string \<Rightarrow> 'v pydict \<Rightarrow> bool" where
  "is_external_module ex module_name codebase =
     (if module_name \<in> stdlib_modules ex then False
      else if list_ex (\<lambda>file_path. str_contains module_name file_path) (dict_keys codebase)
      then False
      else True)"

section \<open>The stand-in synthesizer and the module table\<close>

text \<open>
  What the sandbox changes outside the executor object: \<open>sys.modules\<close> of the running
  interpreter, the temporary directories that exist, the counter that gives every new
  object its identity, and the rest of the host (file contents, clock, language model)
  as an opaque value that only the host operations read and change.
\<close>

datatype module_obj = RealModule string | StandIn mock_module

record 'e world =
  sys_modules :: "string \<rightharpoonup> module_obj"
  dirs :: "string set"
  next_id :: nat
  ext :: 'e

text \<open>The three ways \<open>subprocess.run(..., timeout=10)\<close> can end.\<close>

datatype proc =
    Completed int string string
  | TimeoutExpired
  | Raised error

text \<open>
  \<open>json.loads\<close> returns a JSON value or raises \<open>json.JSONDecodeError\<close>.
\<close>

datatype json =
    JNull
  | JBool bool
  | JNum int
  | JStr string
  | JArr "json list"
  | JObj "(string \<times> json) list"

text \<open>
  The pydantic models, each with the fields that the functions below read or write.
\<close>

record CodeFile =
  cf_path :: string
  content :: string

record CodeChange =
  code :: string
  path :: string

record GeneratedCode =
  code_changes :: "CodeChange list"

record TestCode =
  test_code :: string
  test_path :: string
  original_code_path :: string

record TestResult =
  tr_success :: bool
  message :: string
  tr_test_code :: string
  tr_original_code_path :: string

record ExecutionResult =
  success :: bool
  output_text :: string
  er_mocked_modules :: "string list"

record Task =
  task_id :: string
  description :: string
  file_paths :: "string list"
  relevant_code :: "string pydict"

record TaskResult =
  res_task_id :: string
  res_success :: bool
  res_output :: string
  modified_files :: "string pydict"
  new_files :: "string pydict"
  test_results :: "TestResult list option"

text \<open>
  The operations that are not code of this repository are parameters of the model:
  the parser, the file system calls, the child process, the language model, and the
  JSON and pydantic parsers. Each one that touches the host takes the opaque host value
  and returns the new one; each one that can raise returns the exception as a value.

  \<^item> \<open>mkdtemp\<close>: \<open>tempfile.TemporaryDirectory()\<close>, the name of the new directory;
  \<^item> \<open>write_codebase_file\<close>: \<open>os.path.join\<close>, \<open>os.makedirs(..., exist_ok=True)\<close>, \<open>open\<close> and
    \<open>write\<close> for one file of the codebase, given directory, path and content;
  \<^item> \<open>write_main_file\<close>: \<open>open\<close> and \<open>write\<close> of \<open>__main__.py\<close>, given directory and content;
  \<^item> \<open>rmtree\<close>: the removal of the directory's content when the \<open>with\<close> block is left;
  \<^item> \<open>sys_executable\<close>: \<open>sys.executable\<close>, the path of the interpreter;
  \<^item> \<open>subprocess_run\<close>: \<open>subprocess.run(command, capture_output=True, text=True,
    timeout=..., cwd=...)\<close>, given the command, the timeout and the working directory;
  \<^item> \<open>llm_generate\<close>: \<open>LLMInterface.generate(user_prompt, system_prompt)\<close>;
  \<^item> \<open>json_loads\<close>: \<open>json.loads\<close>, None for \<open>JSONDecodeError\<close>;
  \<^item> \<open>parse_tests\<close>: \<open>TestCodeResponse(**parsed)\<close>, the list of its \<open>tests\<close>;
  \<^item> \<open>parse_generated_code\<close>: \<open>GeneratedCode.parse_raw(response)\<close>;
  \<^item> \<open>tests_prompt\<close>, \<open>code_prompt\<close>, \<open>repair_prompt\<close>: the prompt templates of
    \<open>generate_test_code\<close>, \<open>generate_code\<close> and \<open>modify_code_based_on_test\<close>, the latter two
    as the pair of user prompt and system prompt.
\<close>

record ('e, 'a) host =
  ast_parse :: parser
  mkdtemp :: "'e \<Rightarrow> (error + string) \<times> 'e"
  write_codebase_file :: "string \<Rightarrow> string \<Rightarrow> string \<Rightarrow> 'e \<Rightarrow> error option \<times> 'e"
  write_main_file :: "string \<Rightarrow> string \<Rightarrow> 'e \<Rightarrow> error option \<times> 'e"
  rmtree :: "string \<Rightarrow> 'e \<Rightarrow> 'e"
  sys_executable :: string
  subprocess_run :: "string list \<Rightarrow> nat \<Rightarrow> string \<Rightarrow> 'e \<Rightarrow> proc \<times> 'e"
  llm_generate :: "string \<Rightarrow> string \<Rightarrow> 'e \<Rightarrow> (error + string) \<times> 'e"
  json_loads :: "string \<Rightarrow> json option"
  parse_tests :: "json \<Rightarrow> error + TestCode list"
  parse_generated_code :: "string \<Rightarrow> error + GeneratedCode"
  tests_prompt :: "GeneratedCode \<Rightarrow> string"
  code_prompt :: "Task \<Rightarrow> 'a \<Rightarrow> string \<times> string"
  repair_prompt :: "GeneratedCode \<Rightarrow> string \<Rightarrow> string \<Rightarrow> Task \<Rightarrow> string \<times> string"

text \<open>
  \<open>create_mock_module\<close>: three new \<open>MagicMock\<close> objects, the module stand-in itself, its
  \<open>__loader__\<close> and its \<open>__spec__\<close>.
\<close>

definition create_mock_module :: "string \<Rightarrow> 'e world \<Rightarrow> mock_module \<times> 'e world" where
  "create_mock_module module_name w =
     (\<lparr>mock_id = next_id w,
       mock_name = module_name,
       mock_file = ''/mock/'' @ module_name @ ''.py'',
       mock_path = [''/mock/'' @ module_name],
       mock_loader = next_id w + 1,
       mock_spec = next_id w + 2\<rparr>,
      w\<lparr>next_id := next_id w + 3\<rparr>)"

text \<open>The \<open>for module_name in imports\<close> loop of \<open>mock_external_modules\<close>.\<close>

fun mock_each :: "string list \<Rightarrow> 'v pydict \<Rightarrow> executor \<times> 'e world \<Rightarrow> executor \<times> 'e world" where
  "mock_each [] codebase s = s"
| "mock_each (module_name # imports) codebase (ex, w) =
     (if is_external_module ex module_name codebase then
        (if \<not> dict_contains module_name (mocked_modules ex) then
           (case create_mock_module module_name w of
              (mock, w') \<Rightarrow>
                mock_each imports codebase
                  (ex\<lparr>mocked_modules := dict_set module_name mock (mocked_modules ex)\<rparr>, w'))
         else mock_each imports codebase (ex, w))
      else mock_each imports codebase (ex, w))"

definition mock_external_modules ::
  "('e, 'a) host \<Rightarrow> string \<Rightarrow> 'v pydict \<Rightarrow> executor \<times> 'e world
     \<Rightarrow> error option \<times> executor \<times> 'e world" where
  "mock_external_modules h code_text codebase s =
     (case analyze_imports (ast_parse h) code_text of
        Inl e \<Rightarrow> (Some e, s)
      | Inr imports \<Rightarrow> (None, mock_each imports codebase s))"

definition patch_modules :: "executor \<Rightarrow> 'e world \<Rightarrow> 'e world" where
  "patch_modules ex w =
     w\<lparr>sys_modules :=
         fold (\<lambda>(module_name, mock_module) sm. sm(module_name \<mapsto> StandIn mock_module))
              (mocked_modules ex) (sys_modules w)\<rparr>"

definition unpatch_modules :: "executor \<Rightarrow> 'e world \<Rightarrow> 'e world" where
  "unpatch_modules ex w =
     w\<lparr>sys_modules :=
         fold (\<lambda>module_name sm. if module_name \<in> dom sm then sm(module_name := None) else sm)
              (dict_keys (mocked_modules ex)) (sys_modules w)\<rparr>"

section \<open>The sandbox (\<open>CodeExecutor.run\<close>)\<close>

text \<open>
  The loop that writes the codebase into the directory; the first write that raises ends
  it.
\<close>

fun write_codebase ::
  "('e, 'a) host \<Rightarrow> string \<Rightarrow> string pydict \<Rightarrow> 'e \<Rightarrow> error option \<times> 'e" where
  "write_codebase h temp_dir [] x = (None, x)"
| "write_codebase h temp_dir ((file_path, file_content) # rest) x =
     (case write_codebase_file h temp_dir file_path file_content x of
        (Some e, x') \<Rightarrow> (Some e, x')
      | (None, x') \<Rightarrow> write_codebase h temp_dir rest x')"

text \<open>
  The \<open>try\<close> block with its three exits: the child ended, the child exceeded the ten
  seconds, or anything else was raised.
\<close>

definition python_command :: "('e, 'a) host \<Rightarrow> string \<Rightarrow> string list" where
  "python_command h temp_dir =
     [sys_executable h, ''-c'',
      ''import sys; sys.path.insert(0, '' @ [CHR 0x27] @ temp_dir @ [CHR 0x27]
        @ ''); import __main__'']"

definition run_try ::
  "('e, 'a) host \<Rightarrow> string \<Rightarrow> executor \<Rightarrow> 'e world \<Rightarrow> ExecutionResult \<times> 'e world" where
  "run_try h temp_dir ex w =
     (case subprocess_run h (python_command h temp_dir) 10 temp_dir (ext w) of
        (Completed returncode stdout stderr, x) \<Rightarrow>
          (\<lparr>success = (returncode = 0),
            output_text = (if returncode = 0 then stdout else stderr),
            er_mocked_modules = dict_keys (mocked_modules ex)\<rparr>, w\<lparr>ext := x\<rparr>)
      | (TimeoutExpired, x) \<Rightarrow>
          (\<lparr>success = False,
            output_text = ''Execution timed out'',
            er_mocked_modules = dict_keys (mocked_modules ex)\<rparr>, w\<lparr>ext := x\<rparr>)
      | (Raised e, x) \<Rightarrow>
          (\<lparr>success = False,
            output_text = str_of_error e,
            er_mocked_modules = dict_keys (mocked_modules ex)\<rparr>, w\<lparr>ext := x\<rparr>))"

text \<open>
  The body of the \<open>with\<close> block. Writing the files, parsing the snippet and installing the
  stand-ins come before the \<open>try\<close>; \<open>unpatch_modules\<close> is its \<open>finally\<close>.
\<close>

definition run_body ::
  "('e, 'a) host \<Rightarrow> string \<Rightarrow> string \<Rightarrow> string pydict \<Rightarrow> executor \<times> 'e world
     \<Rightarrow> (error + ExecutionResult) \<times> executor \<times> 'e world" where
  "run_body h temp_dir code_text codebase s =
     (case s of (ex, w) \<Rightarrow>
        (case write_codebase h temp_dir codebase (ext w) of
           (Some e, x) \<Rightarrow> (Inl e, ex, w\<lparr>ext := x\<rparr>)
         | (None, x) \<Rightarrow>
             (case write_main_file h temp_dir code_text x of
                (Some e, x') \<Rightarrow> (Inl e, ex, w\<lparr>ext := x'\<rparr>)
              | (None, x') \<Rightarrow>
                  (case mock_external_modules h code_text codebase (ex, w\<lparr>ext := x'\<rparr>) of
                     (Some e, ex1, w1) \<Rightarrow> (Inl e, ex1, w1)
                   | (None, ex1, w1) \<Rightarrow>
                       (case run_try h temp_dir ex1 (patch_modules ex1 w1) of
                          (result, w2) \<Rightarrow> (Inr result, ex1, unpatch_modules ex1 w2))))))"

text \<open>
  \<open>run\<close>: the \<open>with tempfile.TemporaryDirectory()\<close> block around the body. The directory is
  removed when the block is left, whether by \<open>return\<close> or by an exception. The result is
  \<open>Inl\<close> for an exception that leaves \<open>run\<close>, \<open>Inr\<close> for a returned \<open>ExecutionResult\<close>.
\<close>

definition run ::
  "('e, 'a) host \<Rightarrow> string \<Rightarrow> string pydict \<Rightarrow> executor \<times> 'e world
     \<Rightarrow> (error + ExecutionResult) \<times> executor \<times> 'e world" where
  "run h code_text codebase s =
     (case s of (ex, w) \<Rightarrow>
        (case mkdtemp h (ext w) of
           (Inl e, x) \<Rightarrow> (Inl e, ex, w\<lparr>ext := x\<rparr>)
         | (Inr temp_dir, x) \<Rightarrow>
             (case run_body h temp_dir code_text codebase
                     (ex, w\<lparr>dirs := insert temp_dir (dirs w), ext := x\<rparr>) of
                (r, ex', w') \<Rightarrow>
                  (r, ex', w'\<lparr>dirs := dirs w' - {temp_dir},
                              ext := rmtree h temp_dir (ext w')\<rparr>))))"

section \<open>The tester (\<open>Tester.run_tests\<close>)\<close>

definition generate_test_code ::
  "('e, 'a) host \<Rightarrow> GeneratedCode \<Rightarrow> 'e \<Rightarrow> (error + TestCode list) \<times> 'e" where
  "generate_test_code h gc x =
     (case llm_generate h (tests_prompt h gc) [] x of
        (Inl e, x') \<Rightarrow> (Inl e, x')
      | (Inr response, x') \<Rightarrow>
          (case json_loads h response of
             None \<Rightarrow>
               (Inl (ValueError
                  (''Failed to parse LLM response as JSON. Raw response: '' @ response)), x')
           | Some parsed_response \<Rightarrow> (parse_tests h parsed_response, x')))"

text \<open>
  The codebase handed to the sandbox for one test: the dict comprehension over the
  files, then one assignment per code change.
\<close>

definition updated_codebase :: "GeneratedCode \<Rightarrow> CodeFile list \<Rightarrow> string pydict" where
  "updated_codebase gc codebase =
     fold (\<lambda>file_change d. dict_set (path file_change) (code file_change) d)
          (code_changes gc)
          (fold (\<lambda>file d. dict_set (cf_path file) (content file) d) codebase [])"

text \<open>
  The \<open>for test_code in test_code_response.tests\<close> loop, with the two lists it appends to.
\<close>

fun run_each ::
  "('e, 'a) host \<Rightarrow> GeneratedCode \<Rightarrow> CodeFile list \<Rightarrow> TestCode list
     \<Rightarrow> TestResult list \<times> TestResult list \<Rightarrow> executor \<times> 'e world
     \<Rightarrow> (error + TestResult list \<times> TestResult list) \<times> executor \<times> 'e world" where
  "run_each h gc codebase [] acc s = (Inr acc, s)"
| "run_each h gc codebase (t # ts) (unsuccessful_tests, successful_tests) s =
     (case run h (test_code t) (updated_codebase gc codebase) s of
        (Inl e, s') \<Rightarrow> (Inl e, s')
      | (Inr result, s') \<Rightarrow>
          (let test_result =
                 \<lparr>tr_success = success result,
                  message = output_text result,
                  tr_test_code = test_code t,
                  tr_original_code_path = original_code_path t\<rparr>
           in if \<not> success result
              then run_each h gc codebase ts
                     (unsuccessful_tests @ [test_result], successful_tests) s'
              else run_each h gc codebase ts
                     (unsuccessful_tests, successful_tests @ [test_result]) s'))"

definition run_tests ::
  "('e, 'a) host \<Rightarrow> GeneratedCode \<Rightarrow> CodeFile list \<Rightarrow> executor \<times> 'e world
     \<Rightarrow> (error + TestResult list \<times> TestResult list) \<times> executor \<times> 'e world" where
  "run_tests h gc codebase s =
     (case s of (ex, w) \<Rightarrow>
        (case generate_test_code h gc (ext w) of
           (Inl e, x) \<Rightarrow> (Inl e, ex, w\<lparr>ext := x\<rparr>)
         | (Inr tests, x) \<Rightarrow> run_each h gc codebase tests ([], []) (ex, w\<lparr>ext := x\<rparr>)))"

section \<open>The coder (\<open>CoderAgent\<close>)\<close>

definition generate_code ::
  "('e, 'a) host \<Rightarrow> Task \<Rightarrow> 'a \<Rightarrow> 'e \<Rightarrow> (error + GeneratedCode) \<times> 'e" where
  "generate_code h task agent x =
     (case code_prompt h task agent of
        (user_prompt, system_prompt) \<Rightarrow>
          (case llm_generate h user_prompt system_prompt x of
             (Inl e, x') \<Rightarrow> (Inl e, x')
           | (Inr response, x') \<Rightarrow> (parse_generated_code h response, x')))"

definition modify_code_based_on_test ::
  "('e, 'a) host \<Rightarrow> GeneratedCode \<Rightarrow> string \<Rightarrow> string \<Rightarrow> Task \<Rightarrow> 'e
     \<Rightarrow> (error + GeneratedCode) \<times> 'e" where
  "modify_code_based_on_test h gc test test_result task x =
     (case repair_prompt h gc test test_result task of
        (user_prompt, system_prompt) \<Rightarrow>
          (case llm_generate h user_prompt system_prompt x of
             (Inl e, x') \<Rightarrow> (Inl e, x')
           | (Inr response, x') \<Rightarrow> (parse_generated_code h response, x')))"

section \<open>The repair loop (\<open>AutonomaAgent.modify_code\<close>)\<close>

text \<open>\<open>str(n)\<close> for a natural number, and \<open>sep.join(xs)\<close>.\<close>

definition digit_char :: "nat \<Rightarrow> char" where
  "digit_char d = char_of (48 + d)"

function str_nat :: "nat \<Rightarrow> string" where
  "str_nat n = (if n < 10 then [digit_char n] else str_nat (n div 10) @ [digit_char (n mod 10)])"
  by pat_completeness auto
termination
  by (relation "measure (\<lambda>n. n)") auto

fun join :: "string \<Rightarrow> string list \<Rightarrow> string" where
  "join sep [] = []"
| "join sep [s] = s"
| "join sep (s # s' # rest) = s @ sep @ join sep (s' # rest)"

text \<open>
  The agent owns a \<open>Reflector\<close> with its list of thoughts and, through its \<open>Tester\<close>, one
  \<open>CodeExecutor\<close> that serves every sandbox run. What \<open>reflect\<close> prints is left out.
\<close>

record 'e agent_state =
  thought_process :: "string list"
  tester_executor :: executor
  interp :: "'e world"

definition reflect :: "string \<Rightarrow> 'e agent_state \<Rightarrow> 'e agent_state" where
  "reflect thought a = a\<lparr>thought_process := thought_process a @ [thought]\<rparr>"

text \<open>
  The local variables of \<open>modify_code\<close> that the loop assigns. \<open>unsuccessful_tests\<close> and
  \<open>successful_tests\<close> are unbound until the first call of \<open>run_tests\<close> returns.
\<close>

record loop_vars =
  modified_code :: GeneratedCode
  iteration_count :: nat
  last_tests :: "(TestResult list \<times> TestResult list) option"

definition max_iterations :: nat where
  "max_iterations = 3"

text \<open>The \<open>for test in unsuccessful_tests\<close> loop: every revision replaces the current code.\<close>

fun repair_each ::
  "('e, 'a) host \<Rightarrow> Task \<Rightarrow> TestResult list \<Rightarrow> GeneratedCode \<Rightarrow> 'e
     \<Rightarrow> (error + GeneratedCode) \<times> 'e" where
  "repair_each h task [] gc x = (Inr gc, x)"
| "repair_each h task (test # tests) gc x =
     (case modify_code_based_on_test h gc (tr_test_code test) (message test) task x of
        (Inl e, x') \<Rightarrow> (Inl e, x')
      | (Inr gc', x') \<Rightarrow> repair_each h task tests gc' x')"

definition iteration_thought :: "nat \<Rightarrow> nat \<Rightarrow> string" where
  "iteration_thought iteration failed =
     ''Iteration '' @ str_nat (iteration + 1) @ '': '' @ str_nat failed
       @ '' tests failed. Attempting to fix...''"

text \<open>
  The body of the \<open>while\<close> loop, one round: it ends by an exception of \<open>run_tests\<close> or of a
  repair request, by \<open>break\<close> when no test failed, or at its end with the counter
  incremented after every failing test has had its repair request.
\<close>

datatype flow = Raises error | Breaks | Continues

definition loop_body ::
  "('e, 'a) host \<Rightarrow> Task \<Rightarrow> CodeFile list \<Rightarrow> loop_vars \<Rightarrow> 'e agent_state
     \<Rightarrow> flow \<times> loop_vars \<times> 'e agent_state" where
  "loop_body h task codebase v a =
     (case run_tests h (modified_code v) codebase (tester_executor a, interp a) of
        (Inl e, ex, w) \<Rightarrow> (Raises e, v, a\<lparr>tester_executor := ex, interp := w\<rparr>)
      | (Inr (unsuccessful_tests, successful_tests), ex, w) \<Rightarrow>
          (if unsuccessful_tests = [] then
             (Breaks, v\<lparr>last_tests := Some (unsuccessful_tests, successful_tests)\<rparr>,
              reflect ''All tests passed successfully.''
                (a\<lparr>tester_executor := ex, interp := w\<rparr>))
           else
             (case repair_each h task unsuccessful_tests (modified_code v) (ext w) of
                (Inl e, x) \<Rightarrow>
                  (Raises e, v\<lparr>last_tests := Some (unsuccessful_tests, successful_tests)\<rparr>,
                   reflect (iteration_thought (iteration_count v) (length unsuccessful_tests))
                     (a\<lparr>tester_executor := ex, interp := w\<lparr>ext := x\<rparr>\<rparr>))
              | (Inr gc, x) \<Rightarrow>
                  (Continues,
                   v\<lparr>modified_code := gc,
                      iteration_count := Suc (iteration_count v),
                      last_tests := Some (unsuccessful_tests, successful_tests)\<rparr>,
                   reflect (iteration_thought (iteration_count v) (length unsuccessful_tests))
                     (a\<lparr>tester_executor := ex, interp := w\<lparr>ext := x\<rparr>\<rparr>)))))"

text \<open>
  The \<open>while iteration_count < max_iterations\<close> loop. It ends with None when the condition
  fails or at \<open>break\<close>, and with the exception when a call inside it raises.
\<close>

function while_loop ::
  "('e, 'a) host \<Rightarrow> Task \<Rightarrow> CodeFile list \<Rightarrow> nat \<Rightarrow> loop_vars \<Rightarrow> 'e agent_state
     \<Rightarrow> error option \<times> loop_vars \<times> 'e agent_state" where
  "while_loop h task codebase cap v a =
     (if iteration_count v < cap then
        (case loop_body h task codebase v a of
           (Raises e, v', a') \<Rightarrow> (Some e, v', a')
         | (Breaks, v', a') \<Rightarrow> (None, v', a')
         | (Continues, v', a') \<Rightarrow> while_loop h task codebase cap v' a')
      else (None, v, a))"
  by pat_completeness auto
termination
  apply (relation "measure (\<lambda>(h, task, codebase, cap, v, a). cap - iteration_count v)")
   apply simp
  apply (auto simp: loop_body_def split: prod.splits sum.splits if_splits)
  done

declare while_loop.simps [simp del]

text \<open>
  \<open>modify_code\<close>: the first code from the coder, the loop with \<open>max_iterations = 3\<close>, and the
  \<open>TaskResult\<close> built from the variables the loop leaves.
\<close>

definition modify_code ::
  "('e, 'a) host \<Rightarrow> Task \<Rightarrow> 'a \<Rightarrow> CodeFile list \<Rightarrow> 'e agent_state
     \<Rightarrow> (error + TaskResult) \<times> 'e agent_state" where
  "modify_code h task agent codebase a =
     (let a0 = reflect (''Modifying code in files: '' @ join '', '' (file_paths task)) a in
      case generate_code h task agent (ext (interp a0)) of
        (Inl e, x) \<Rightarrow> (Inl e, a0\<lparr>interp := (interp a0)\<lparr>ext := x\<rparr>\<rparr>)
      | (Inr gc, x) \<Rightarrow>
          (case while_loop h task codebase max_iterations
                  \<lparr>modified_code = gc, iteration_count = 0, last_tests = None\<rparr>
                  (a0\<lparr>interp := (interp a0)\<lparr>ext := x\<rparr>\<rparr>) of
             (Some e, v, a1) \<Rightarrow> (Inl e, a1)
           | (None, v, a1) \<Rightarrow>
               (let a2 = (if iteration_count v = max_iterations
                          then reflect ''Maximum iterations reached. Some tests are still failing.'' a1
                          else a1)
                in case last_tests v of
                     None \<Rightarrow>
                       (Inl (UnboundLocalError
                          ''local variable 'unsuccessful_tests' referenced before assignment''), a2)
                   | Some (unsuccessful_tests, successful_tests) \<Rightarrow>
                       (Inr \<lparr>res_task_id = task_id task,
                             res_success = (length unsuccessful_tests = 0),
                             res_output = (if unsuccessful_tests = []
                                           then ''Code modification complete''
                                           else ''Some tests are still failing''),
                             modified_files =
                               fold (\<lambda>file_change d. dict_set (path file_change) (code file_change) d)
                                    (code_changes (modified_code v)) [],
                             new_files = [],
                             test_results = Some (successful_tests @ unsuccessful_tests)\<rparr>, a2))))"

section \<open>Observations and a concrete host\<close>

text \<open>
  The number of repair rounds that the thoughts record: \<open>modify_code\<close> writes one thought
  that begins with \<open>Iteration\<close> each time it starts to repair.
\<close>

definition repair_rounds :: "'e agent_state \<Rightarrow> nat" where
  "repair_rounds a = length (filter (starts_with ''Iteration '') (thought_process a))"

text \<open>A host on which no operation raises.\<close>

definition never_raises :: "('e, 'a) host \<Rightarrow> bool" where
  "never_raises h \<longleftrightarrow>
     (\<forall>user_prompt system_prompt x. \<exists>response x'.
         llm_generate h user_prompt system_prompt x = (Inr response, x'))
     \<and> (\<forall>response. json_loads h response \<noteq> None)
     \<and> (\<forall>parsed. \<exists>tests. parse_tests h parsed = Inr tests)
     \<and> (\<forall>response. \<exists>gc. parse_generated_code h response = Inr gc)
     \<and> (\<forall>code_text. \<exists>tree. ast_parse h code_text = Inr tree)
     \<and> (\<forall>x. \<exists>temp_dir x'. mkdtemp h x = (Inr temp_dir, x'))
     \<and> (\<forall>temp_dir file_path file_content x.
           fst (write_codebase_file h temp_dir file_path file_content x) = None)
     \<and> (\<forall>temp_dir code_text x. fst (write_main_file h temp_dir code_text x) = None)"

text \<open>
  The outcomes of the tests in the order of the tests: each test is run in the sandbox on
  the updated codebase and its \<open>TestResult\<close> carries what the sandbox reported.
\<close>

fun sandbox_outcomes ::
  "('e, 'a) host \<Rightarrow> GeneratedCode \<Rightarrow> CodeFile list \<Rightarrow> TestCode list \<Rightarrow> executor \<times> 'e world
     \<Rightarrow> (error + TestResult list) \<times> executor \<times> 'e world" where
  "sandbox_outcomes h gc codebase [] s = (Inr [], s)"
| "sandbox_outcomes h gc codebase (t # ts) s =
     (case run h (test_code t) (updated_codebase gc codebase) s of
        (Inl e, s') \<Rightarrow> (Inl e, s')
      | (Inr result, s') \<Rightarrow>
          (case sandbox_outcomes h gc codebase ts s' of
             (Inl e, s'') \<Rightarrow> (Inl e, s'')
           | (Inr rs, s'') \<Rightarrow>
               (Inr (\<lparr>tr_success = success result,
                      message = output_text result,
                      tr_test_code = test_code t,
                      tr_original_code_path = original_code_path t\<rparr> # rs), s'')))"

text \<open>
  A small host for concrete runs. Its opaque part is the list of user prompts sent to the
  language model so far. The model answers with its prompt; the parser knows three
  snippets; the child process exits with status 0 and prints nothing.
\<close>

definition demo_parse :: parser where
  "demo_parse code_text =
     (if code_text = ''def ('' then Inl (SyntaxError ''invalid syntax'')
      else if code_text = ''import numpy'' then Inr (Other [Import [''numpy'']])
      else if code_text = ''import numpy.linalg; import numpy''
      then Inr (Other [Import [''numpy.linalg''], Import [''numpy'']])
      else Inr (Other []))"

definition demo_host :: "(string list, unit) host" where
  "demo_host =
     \<lparr>ast_parse = demo_parse,
      mkdtemp = (\<lambda>x. (Inr ''/tmp/tmpa1'', x)),
      write_codebase_file = (\<lambda>temp_dir file_path file_content x. (None, x)),
      write_main_file = (\<lambda>temp_dir code_text x. (None, x)),
      rmtree = (\<lambda>temp_dir x. x),
      sys_executable = ''/usr/bin/python3'',
      subprocess_run = (\<lambda>command timeout cwd x. (Completed 0 [] [], x)),
      llm_generate = (\<lambda>user_prompt system_prompt x. (Inr user_prompt, x @ [user_prompt])),
      json_loads = (\<lambda>response. Some JNull),
      parse_tests = (\<lambda>parsed. Inr []),
      parse_generated_code = (\<lambda>response. Inr \<lparr>code_changes = [\<lparr>code = response, path = ''a.py''\<rparr>]\<rparr>),
      tests_prompt = (\<lambda>gc. ''tests''),
      code_prompt = (\<lambda>task agent. (''code'', ''agent'')),
      repair_prompt = (\<lambda>gc test test_result task. (''repair '' @ test, ''expert''))\<rparr>"

definition demo_executor :: executor where
  "demo_executor = \<lparr>mocked_modules = [], stdlib_modules = {''os'', ''sys'', ''unittest''}\<rparr>"

definition demo_world :: "string list world" where
  "demo_world = \<lparr>sys_modules = [''sys'' \<mapsto> RealModule ''sys''], dirs = {}, next_id = 0, ext = []\<rparr>"

text \<open>
  Two runs on one executor: a snippet that imports \<open>numpy\<close>, which the host does not know,
  and after it a snippet that imports nothing.
\<close>

definition demo_numpy_run ::
  "(error + ExecutionResult) \<times> executor \<times> string list world" where
  "demo_numpy_run = run demo_host ''import numpy'' [] (demo_executor, demo_world)"

definition demo_pass_run ::
  "(error + ExecutionResult) \<times> executor \<times> string list world" where
  "demo_pass_run = run demo_host ''pass'' [] (snd demo_numpy_run)"

text \<open>The same host with a child process that exceeds its time.\<close>

definition slow_host :: "(string list, unit) host" where
  "slow_host = demo_host\<lparr>subprocess_run := (\<lambda>command timeout cwd x. (TimeoutExpired, x))\<rparr>"

text \<open>A snippet that imports the same external module twice.\<close>

definition demo_twice_import :: "error option \<times> executor \<times> string list world" where
  "demo_twice_import =
     mock_external_modules demo_host ''import numpy.linalg; import numpy''
       ([] :: string pydict) (demo_executor, demo_world)"

text \<open>
  A host for the tester and the repair loop. Its opaque part records the prompts sent to
  the language model and the snippets written as \<open>__main__.py\<close>; the child process fails
  when the snippet written last is one of two failing assertions. Every response of the
  model parses to the same three tests, of which the first and the third fail.
\<close>

definition demo_tests :: "TestCode list" where
  "demo_tests =
     [\<lparr>test_code = ''assert False'', test_path = ''test_a.py'', original_code_path = ''a.py''\<rparr>,
      \<lparr>test_code = ''assert True'', test_path = ''test_b.py'', original_code_path = ''b.py''\<rparr>,
      \<lparr>test_code = ''assert 1 == 2'', test_path = ''test_c.py'', original_code_path = ''c.py''\<rparr>]"

definition tests_host :: "(string list, unit) host" where
  "tests_host =
     demo_host
       \<lparr>write_main_file := (\<lambda>temp_dir code_text x. (None, x @ [code_text])),
        subprocess_run :=
          (\<lambda>command timeout cwd x.
             (if x \<noteq> [] \<and> (last x = ''assert False'' \<or> last x = ''assert 1 == 2'')
              then Completed 1 [] ''AssertionError''
              else Completed 0 ''ok'' [], x)),
        parse_tests := (\<lambda>parsed. Inr demo_tests)\<rparr>"

definition demo_code :: GeneratedCode where
  "demo_code = \<lparr>code_changes = [\<lparr>code = ''x = 1'', path = ''a.py''\<rparr>]\<rparr>"

definition demo_tests_run ::
  "(error + TestResult list \<times> TestResult list) \<times> executor \<times> string list world" where
  "demo_tests_run = run_tests tests_host demo_code [] (demo_executor, demo_world)"

text \<open>A task, an agent state, and a host whose language model answers with text that is not JSON.\<close>

definition demo_task :: Task where
  "demo_task =
     \<lparr>task_id = ''t1'', description = ''refactor'', file_paths = [''a.py''], relevant_code = []\<rparr>"

definition demo_agent :: "string list agent_state" where
  "demo_agent =
     \<lparr>thought_process = [], tester_executor = demo_executor, interp = demo_world\<rparr>"

definition bad_json_host :: "(string list, unit) host" where
  "bad_json_host = demo_host\<lparr>json_loads := (\<lambda>response. None)\<rparr>"

text \<open>The variables of the loop when it is entered with the code \<open>demo_code\<close>.\<close>

definition demo_vars :: loop_vars where
  "demo_vars = \<lparr>modified_code = demo_code, iteration_count = 0, last_tests = None\<rparr>"

definition demo_failed_a :: TestResult where
  "demo_failed_a =
     \<lparr>tr_success = False, message = ''AssertionError'', tr_test_code = ''assert False'',
      tr_original_code_path = ''a.py''\<rparr>"

definition demo_passed_b :: TestResult where
  "demo_passed_b =
     \<lparr>tr_success = True, message = ''ok'', tr_test_code = ''assert True'',
      tr_original_code_path = ''b.py''\<rparr>"

definition demo_failed_c :: TestResult where
  "demo_failed_c =
     \<lparr>tr_success = False, message = ''AssertionError'', tr_test_code = ''assert 1 == 2'',
      tr_original_code_path = ''c.py''\<rparr>"


text \<open>
  A second run that imports \<open>numpy\<close> again, on the executor that has its stand-in cached,
  and a run on a snippet that the parser rejects.
\<close>

definition demo_numpy_again_run ::
  "(error + ExecutionResult) \<times> executor \<times> string list world" where
  "demo_numpy_again_run = run demo_host ''import numpy'' [] (snd demo_numpy_run)"

definition demo_syntax_run ::
  "(error + ExecutionResult) \<times> executor \<times> string list world" where
  "demo_syntax_run = run demo_host ''def ('' [] (demo_executor, demo_world)"

text \<open>
  The values of the loop variables and the state of the agent each time the condition of
  the \<open>while\<close> loop is evaluated, in order.
\<close>

function loop_points ::
  "('e, 'a) host \<Rightarrow> Task \<Rightarrow> CodeFile list \<Rightarrow> nat \<Rightarrow> loop_vars \<Rightarrow> 'e agent_state
     \<Rightarrow> (loop_vars \<times> 'e agent_state) list" where
  "loop_points h task codebase cap v a =
     (v, a) #
     (if iteration_count v < cap then
        (case loop_body h task codebase v a of
           (Raises e, v', a') \<Rightarrow> []
         | (Breaks, v', a') \<Rightarrow> []
         | (Continues, v', a') \<Rightarrow> loop_points h task codebase cap v' a')
      else [])"
  by pat_completeness auto
termination
  apply (relation "measure (\<lambda>(h, task, codebase, cap, v, a). cap - iteration_count v)")
   apply simp
  apply (auto simp: loop_body_def split: prod.splits sum.splits if_splits)
  done

declare loop_points.simps [simp del]

text \<open>
  The loop variables and the state of the agent with which \<open>modify_code\<close> enters its loop,
  when \<open>generate_code\<close> has returned the code \<open>gc\<close> and left the host as \<open>x\<close>.
\<close>

definition entry_vars :: "GeneratedCode \<Rightarrow> loop_vars" where
  "entry_vars gc = \<lparr>modified_code = gc, iteration_count = 0, last_tests = None\<rparr>"

definition entry_state :: "Task \<Rightarrow> 'e agent_state \<Rightarrow> 'e \<Rightarrow> 'e agent_state" where
  "entry_state task a x =
     (reflect (''Modifying code in files: '' @ join '', '' (file_paths task)) a)
       \<lparr>interp := (interp a)\<lparr>ext := x\<rparr>\<rparr>"

text \<open>
  A round raises when its call of \<open>run_tests\<close> or one of its repair requests does.
\<close>

definition round_raises ::
  "('e, 'a) host \<Rightarrow> Task \<Rightarrow> CodeFile list \<Rightarrow> loop_vars \<times> 'e agent_state \<Rightarrow> bool" where
  "round_raises h task codebase p =
     (case loop_body h task codebase (fst p) (snd p) of
        (Raises e, v', a') \<Rightarrow> True
      | (Breaks, v', a') \<Rightarrow> False
      | (Continues, v', a') \<Rightarrow> False)"

text \<open>
  The host of the tester with a test prompt that quotes the code and a JSON parser that
  accepts only the response to the first prompt: the response of the second round is
  malformed.
\<close>

definition late_bad_host :: "(string list, unit) host" where
  "late_bad_host =
     tests_host
       \<lparr>json_loads := (\<lambda>response. if response = ''code'' then Some JNull else None),
        tests_prompt := (\<lambda>gc. concat (map code (code_changes gc)))\<rparr>"

text \<open>
  The loop variables and the state of the agent after the first round on \<open>tests_host\<close>,
  in which the first and the third test fail.
\<close>

definition demo_vars_after :: loop_vars where
  "demo_vars_after =
     demo_vars
       \<lparr>modified_code := \<lparr>code_changes = [\<lparr>code = ''repair assert 1 == 2'', path = ''a.py''\<rparr>]\<rparr>,
        iteration_count := Suc (iteration_count demo_vars),
        last_tests := Some ([demo_failed_a] @ [demo_failed_c], [demo_passed_b])\<rparr>"

definition demo_agent_after :: "string list agent_state" where
  "demo_agent_after =
     reflect (iteration_thought (iteration_count demo_vars)
                (length ([demo_failed_a] @ [demo_failed_c])))
       (demo_agent
          \<lparr>tester_executor := fst (snd demo_tests_run),
           interp := (snd (snd demo_tests_run))
             \<lparr>ext := [''tests'', ''assert False'', ''assert True'', ''assert 1 == 2'',
                      ''repair assert False'', ''repair assert 1 == 2'']\<rparr>\<rparr>)"

text \<open>
  The second time the loop condition is evaluated when \<open>modify_code\<close> runs on \<open>late_bad_host\<close>.
\<close>

definition demo_second_point :: "loop_vars \<times> string list agent_state" where
  "demo_second_point =
     loop_points late_bad_host demo_task [] max_iterations
       (entry_vars \<lparr>code_changes = [\<lparr>code = ''code'', path = ''a.py''\<rparr>]\<rparr>)
       (entry_state demo_task demo_agent [''code'']) ! 1"

section \<open>Substring search\<close>



section \<open>Lemmas about the module table and the stand-in cache\<close>

lemma unpatch_fold_dom:
  "dom (fold (\<lambda>module_name sm. if module_name \<in> dom sm then sm(module_name := None) else sm) ns sm)
     = dom sm - set ns"
  by (induction ns arbitrary: sm) auto

lemma unpatch_modules_dom:
  "dom (sys_modules (unpatch_modules ex w)) = dom (sys_modules w) - set (dict_keys (mocked_modules ex))"
  by (simp add: unpatch_modules_def unpatch_fold_dom)

lemma unpatch_modules_fields [simp]:
  "dirs (unpatch_modules ex w) = dirs w" "ext (unpatch_modules ex w) = ext w"
  "next_id (unpatch_modules ex w) = next_id w"
  by (simp_all add: unpatch_modules_def)

lemma patch_modules_fields [simp]:
  "dirs (patch_modules ex w) = dirs w" "ext (patch_modules ex w) = ext w"
  "next_id (patch_modules ex w) = next_id w"
  by (simp_all add: patch_modules_def)

lemma run_try_fields [simp]:
  "dirs (snd (run_try h d ex w)) = dirs w"
  "sys_modules (snd (run_try h d ex w)) = sys_modules w"
  "next_id (snd (run_try h d ex w)) = next_id w"
  by (simp_all add: run_try_def split: prod.splits proc.splits)

lemma run_try_mocked [simp]:
  "er_mocked_modules (fst (run_try h d ex w)) = dict_keys (mocked_modules ex)"
  by (simp add: run_try_def split: prod.splits proc.splits)

lemma mock_each_world [simp]:
  "dirs (snd (mock_each imps cb s)) = dirs (snd s)"
  "ext (snd (mock_each imps cb s)) = ext (snd s)"
  "sys_modules (snd (mock_each imps cb s)) = sys_modules (snd s)"
  "stdlib_modules (fst (mock_each imps cb s)) = stdlib_modules (fst s)"
  by (induction imps cb s rule: mock_each.induct; simp add: create_mock_module_def)+

lemma dict_keys_dict_set:
  "dict_keys (dict_set k v d) = (if k \<in> set (dict_keys d) then dict_keys d else dict_keys d @ [k])"
  by (induction d) (force simp: dict_keys_def)+

lemma is_external_module_cong:
  "stdlib_modules ex' = stdlib_modules ex \<Longrightarrow> is_external_module ex' n cb = is_external_module ex n cb"
  by (simp add: is_external_module_def)

lemma mock_each_keys:
  "\<exists>new. dict_keys (mocked_modules (fst (mock_each imps cb (ex, w))))
            = dict_keys (mocked_modules ex) @ new
        \<and> distinct new
        \<and> set new = {n \<in> set imps. is_external_module ex n cb} - set (dict_keys (mocked_modules ex))
        \<and> next_id (snd (mock_each imps cb (ex, w))) = next_id w + 3 * length new"
proof (induction imps arbitrary: ex w)
  case Nil
  show ?case by simp
next
  case (Cons n imps)
  show ?case
  proof (cases "is_external_module ex n cb \<and> \<not> dict_contains n (mocked_modules ex)")
    case False
    then have eq: "mock_each (n # imps) cb (ex, w) = mock_each imps cb (ex, w)" by auto
    from Cons.IH[of ex w] obtain new where new:
      "dict_keys (mocked_modules (fst (mock_each imps cb (ex, w)))) = dict_keys (mocked_modules ex) @ new"
      "distinct new"
      "set new = {n \<in> set imps. is_external_module ex n cb} - set (dict_keys (mocked_modules ex))"
      "next_id (snd (mock_each imps cb (ex, w))) = next_id w + 3 * length new"
      by blast
    from False have "set new = {m \<in> set (n # imps). is_external_module ex m cb} - set (dict_keys (mocked_modules ex))"
      using new(3) by (auto simp: dict_contains_def)
    with new eq show ?thesis by auto
  next
    case True
    define mk where "mk = fst (create_mock_module n w)"
    define w1 where "w1 = snd (create_mock_module n w)"
    define ex1 where "ex1 = ex\<lparr>mocked_modules := dict_set n mk (mocked_modules ex)\<rparr>"
    have eq: "mock_each (n # imps) cb (ex, w) = mock_each imps cb (ex1, w1)"
      using True by (simp add: mk_def w1_def ex1_def split: prod.splits)
    have keys1: "dict_keys (mocked_modules ex1) = dict_keys (mocked_modules ex) @ [n]"
      using True by (simp add: ex1_def dict_keys_dict_set dict_contains_def)
    have ext1: "\<And>m. is_external_module ex1 m cb = is_external_module ex m cb"
      by (rule is_external_module_cong) (simp add: ex1_def)
    have id1: "next_id w1 = next_id w + 3" by (simp add: w1_def create_mock_module_def)
    from Cons.IH[of ex1 w1] obtain new where new:
      "dict_keys (mocked_modules (fst (mock_each imps cb (ex1, w1)))) = dict_keys (mocked_modules ex1) @ new"
      "distinct new"
      "set new = {n \<in> set imps. is_external_module ex1 n cb} - set (dict_keys (mocked_modules ex1))"
      "next_id (snd (mock_each imps cb (ex1, w1))) = next_id w1 + 3 * length new"
      by blast
    let ?new = "n # new"
    have a: "dict_keys (mocked_modules (fst (mock_each (n # imps) cb (ex, w)))) = dict_keys (mocked_modules ex) @ ?new"
      using new(1) keys1 eq by simp
    have b: "distinct ?new" using new(2,3) keys1 by auto
    have c: "set ?new = {m \<in> set (n # imps). is_external_module ex m cb} - set (dict_keys (mocked_modules ex))"
      using new(3) keys1 ext1 True by (auto simp: dict_contains_def)
    have d: "next_id (snd (mock_each (n # imps) cb (ex, w))) = next_id w + 3 * length ?new"
      using new(4) id1 eq by simp
    from a b c d show ?thesis by blast
  qed
qed

section \<open>The paths through \<open>run\<close>\<close>

lemma mock_external_modules_Some:
  "mock_external_modules h c cb s = (Some e, s') \<Longrightarrow> s' = s \<and> ast_parse h c = Inl e"
  by (cases "ast_parse h c") (simp_all add: mock_external_modules_def analyze_imports_def)

lemma mock_external_modules_None:
  "mock_external_modules h c cb s = (None, s') \<Longrightarrow>
     \<exists>imps. analyze_imports (ast_parse h) c = Inr imps \<and> s' = mock_each imps cb s"
  by (cases "analyze_imports (ast_parse h) c") (simp_all add: mock_external_modules_def)

text \<open>The paths through the body, one lemma each.\<close>

lemma run_body_write_fails:
  "write_codebase h d cb (ext w) = (Some e, x) \<Longrightarrow>
     run_body h d c cb (ex, w) = (Inl e, ex, w\<lparr>ext := x\<rparr>)"
  by (simp add: run_body_def)

lemma run_body_main_fails:
  "write_codebase h d cb (ext w) = (None, x) \<Longrightarrow> write_main_file h d c x = (Some e, x') \<Longrightarrow>
     run_body h d c cb (ex, w) = (Inl e, ex, w\<lparr>ext := x'\<rparr>)"
  by (simp add: run_body_def)

lemma run_body_parse_fails:
  "write_codebase h d cb (ext w) = (None, x) \<Longrightarrow> write_main_file h d c x = (None, x') \<Longrightarrow>
   ast_parse h c = Inl e \<Longrightarrow>
     run_body h d c cb (ex, w) = (Inl e, ex, w\<lparr>ext := x'\<rparr>)"
  by (simp add: run_body_def mock_external_modules_def analyze_imports_def)

lemma run_body_runs:
  "write_codebase h d cb (ext w) = (None, x) \<Longrightarrow> write_main_file h d c x = (None, x') \<Longrightarrow>
   analyze_imports (ast_parse h) c = Inr imps \<Longrightarrow>
   mock_each imps cb (ex, w\<lparr>ext := x'\<rparr>) = (ex1, w1) \<Longrightarrow>
     run_body h d c cb (ex, w) =
       (Inr (fst (run_try h d ex1 (patch_modules ex1 w1))), ex1,
        unpatch_modules ex1 (snd (run_try h d ex1 (patch_modules ex1 w1))))"
  by (simp add: run_body_def mock_external_modules_def split: prod.splits)

lemma run_body_cases:
  obtains (write_fails) e x where "write_codebase h d cb (ext w) = (Some e, x)"
  | (main_fails) e x x' where "write_codebase h d cb (ext w) = (None, x)"
        "write_main_file h d c x = (Some e, x')"
  | (parse_fails) e x x' where "write_codebase h d cb (ext w) = (None, x)"
        "write_main_file h d c x = (None, x')" "ast_parse h c = Inl e"
  | (runs) x x' imps ex1 w1 where "write_codebase h d cb (ext w) = (None, x)"
        "write_main_file h d c x = (None, x')" "analyze_imports (ast_parse h) c = Inr imps"
        "mock_each imps cb (ex, w\<lparr>ext := x'\<rparr>) = (ex1, w1)"
proof -
  obtain o1 x where wc: "write_codebase h d cb (ext w) = (o1, x)"
    by (cases "write_codebase h d cb (ext w)")
  obtain o2 x' where wm: "write_main_file h d c x = (o2, x')"
    by (cases "write_main_file h d c x")
  show thesis
  proof (cases o1)
    case (Some e)
    with wc show ?thesis using write_fails by blast
  next
    case None
    note o1 = this
    show ?thesis
    proof (cases o2)
      case (Some e)
      with wc wm o1 show ?thesis using main_fails by blast
    next
      case None
      note o2 = this
      show ?thesis
      proof (cases "ast_parse h c")
        case (Inl e)
        with wc wm o1 o2 show ?thesis using parse_fails by blast
      next
        case (Inr tree)
        then have "analyze_imports (ast_parse h) c = Inr (concat (map node_imports (walk [tree])))"
          by (simp add: analyze_imports_def)
        with wc wm o1 o2 show ?thesis
          using runs[OF _ _ _ surjective_pairing] by blast
      qed
    qed
  qed
qed

lemma run_tmp_fails:
  "mkdtemp h (ext w) = (Inl e, x) \<Longrightarrow> run h c cb (ex, w) = (Inl e, ex, w\<lparr>ext := x\<rparr>)"
  by (simp add: run_def)

lemma run_in_dir:
  "mkdtemp h (ext w) = (Inr d, x) \<Longrightarrow>
   run_body h d c cb (ex, w\<lparr>dirs := insert d (dirs w), ext := x\<rparr>) = (r, ex', w') \<Longrightarrow>
     run h c cb (ex, w) = (r, ex', w'\<lparr>dirs := dirs w' - {d}, ext := rmtree h d (ext w')\<rparr>)"
  by (simp add: run_def)

lemma run_runs:
  assumes mk: "mkdtemp h (ext w) = (Inr d, x0)"
    and wc: "write_codebase h d cb x0 = (None, x1)"
    and wm: "write_main_file h d c x1 = (None, x2)"
    and ai: "analyze_imports (ast_parse h) c = Inr imps"
    and me: "mock_each imps cb (ex, w\<lparr>dirs := insert d (dirs w), ext := x2\<rparr>) = (ex1, w1)"
  shows "fst (run h c cb (ex, w)) = Inr (fst (run_try h d ex1 (patch_modules ex1 w1)))"
    and "fst (snd (run h c cb (ex, w))) = ex1"
proof -
  let ?w0 = "w\<lparr>dirs := insert d (dirs w), ext := x0\<rparr>"
  have wc': "write_codebase h d cb (ext ?w0) = (None, x1)" using wc by simp
  have me': "mock_each imps cb (ex, ?w0\<lparr>ext := x2\<rparr>) = (ex1, w1)" using me by simp
  note rb = run_body_runs[OF wc' wm ai me']
  from run_in_dir[OF mk rb]
  show "fst (run h c cb (ex, w)) = Inr (fst (run_try h d ex1 (patch_modules ex1 w1)))"
    and "fst (snd (run h c cb (ex, w))) = ex1"
    by simp_all
qed

lemmas demo_defs =
  run_def run_body_def run_try_def mock_external_modules_def analyze_imports_def
  demo_host_def demo_parse_def demo_executor_def demo_world_def slow_host_def
  is_external_module_def dict_keys_def dict_contains_def create_mock_module_def
  patch_modules_def unpatch_modules_def first_segment_def python_command_def

lemma triple_collapse: "R = (fst R, fst (snd R), snd (snd R))"
  by simp

lemma demo_numpy_run_result:
  "fst demo_numpy_run = Inr \<lparr>success = True, output_text = [], er_mocked_modules = [''numpy'']\<rparr>"
  by (simp add: demo_numpy_run_def demo_defs)

lemma demo_numpy_run_keys:
  "dict_keys (mocked_modules (fst (snd demo_numpy_run))) = [''numpy'']"
  by (simp add: demo_numpy_run_def demo_defs)

section \<open>The stand-in cache is filled once per name\<close>

lemma mock_each_noop:
  "\<forall>n \<in> set imps. is_external_module ex n cb \<longrightarrow> dict_contains n (mocked_modules ex) \<Longrightarrow>
     mock_each imps cb (ex, w) = (ex, w)"
  by (induction imps) auto

lemma dict_set_new: "k \<notin> set (dict_keys d) \<Longrightarrow> dict_set k v d = d @ [(k, v)]"
  by (induction d) (auto simp: dict_keys_def)

lemma mock_each_prefix:
  "\<exists>added. mocked_modules (fst (mock_each imps cb (ex, w))) = mocked_modules ex @ added"
proof (induction imps arbitrary: ex w)
  case Nil
  show ?case by simp
next
  case (Cons n imps)
  show ?case
  proof (cases "is_external_module ex n cb \<and> \<not> dict_contains n (mocked_modules ex)")
    case False
    then have "mock_each (n # imps) cb (ex, w) = mock_each imps cb (ex, w)" by auto
    with Cons.IH[of ex w] show ?thesis by simp
  next
    case True
    define mk where "mk = fst (create_mock_module n w)"
    define w1 where "w1 = snd (create_mock_module n w)"
    define ex1 where "ex1 = ex\<lparr>mocked_modules := mocked_modules ex @ [(n, mk)]\<rparr>"
    have "mock_each (n # imps) cb (ex, w) = mock_each imps cb (ex1, w1)"
      using True by (simp add: mk_def w1_def ex1_def dict_set_new dict_contains_def split: prod.splits)
    moreover from Cons.IH[of ex1 w1] obtain added where
      "mocked_modules (fst (mock_each imps cb (ex1, w1))) = mocked_modules ex1 @ added" by blast
    ultimately have "mocked_modules (fst (mock_each (n # imps) cb (ex, w)))
        = mocked_modules ex @ ((n, mk) # added)"
      by (simp add: ex1_def)
    then show ?thesis by blast
  qed
qed

lemma mock_each_idem:
  "mock_each imps cb (mock_each imps cb (ex, w)) = mock_each imps cb (ex, w)"
proof -
  define ex' where "ex' = fst (mock_each imps cb (ex, w))"
  define w' where "w' = snd (mock_each imps cb (ex, w))"
  have s: "mock_each imps cb (ex, w) = (ex', w')" by (simp add: ex'_def w'_def)
  from mock_each_keys[of imps cb ex w] obtain new where
    k: "dict_keys (mocked_modules ex') = dict_keys (mocked_modules ex) @ new"
    and n: "set new = {n \<in> set imps. is_external_module ex n cb} - set (dict_keys (mocked_modules ex))"
    by (auto simp: ex'_def)
  have std: "stdlib_modules ex' = stdlib_modules ex"
    using mock_each_world(4)[of imps cb "(ex, w)"] by (simp add: ex'_def)
  have "\<forall>m \<in> set imps. is_external_module ex' m cb \<longrightarrow> dict_contains m (mocked_modules ex')"
  proof (intro ballI impI)
    fix m assume m: "m \<in> set imps" "is_external_module ex' m cb"
    then have "is_external_module ex m cb" using is_external_module_cong[OF std, of m cb] by blast
    with m(1) n have "m \<in> set (dict_keys (mocked_modules ex)) \<union> set new" by auto
    with k show "dict_contains m (mocked_modules ex')" by (simp add: dict_contains_def)
  qed
  from mock_each_noop[OF this] s show ?thesis by simp
qed

section \<open>The tester's loop as a partition of the outcomes\<close>

lemma run_each_partition:
  "run_each h gc cb tests (u0, p0) s =
     (case sandbox_outcomes h gc cb tests s of
        (Inl e, s') \<Rightarrow> (Inl e, s')
      | (Inr rs, s') \<Rightarrow>
          (Inr (u0 @ filter (\<lambda>r. \<not> tr_success r) rs, p0 @ filter tr_success rs), s'))"
proof (induction tests arbitrary: u0 p0 s)
  case Nil
  show ?case by simp
next
  case (Cons t ts)
  obtain r s1 where r: "run h (test_code t) (updated_codebase gc cb) s = (r, s1)"
    by (cases "run h (test_code t) (updated_codebase gc cb) s")
  show ?case
  proof (cases r)
    case (Inl e)
    with r show ?thesis by simp
  next
    case (Inr result)
    obtain q s2 where q: "sandbox_outcomes h gc cb ts s1 = (q, s2)"
      by (cases "sandbox_outcomes h gc cb ts s1")
    show ?thesis
    proof (cases q)
      case (Inl e)
      with r Inr q Cons.IH show ?thesis by (simp add: Let_def)
    next
      case (Inr rs)
      with r \<open>r = Inr result\<close> q Cons.IH show ?thesis by (simp add: Let_def)
    qed
  qed
qed

lemma sandbox_outcomes_shape:
  "sandbox_outcomes h gc cb tests s = (Inr rs, s') \<Longrightarrow>
     map tr_test_code rs = map test_code tests
     \<and> map tr_original_code_path rs = map original_code_path tests"
proof (induction tests arbitrary: s rs)
  case Nil
  then show ?case by simp
next
  case (Cons t ts)
  from Cons.prems show ?case
    by (auto split: prod.splits sum.splits dest: Cons.IH)
qed

lemmas tests_defs =
  run_tests_def generate_test_code_def updated_codebase_def tests_host_def demo_tests_def
  demo_code_def

lemma demo_generate_tests:
  "generate_test_code tests_host demo_code (ext demo_world) = (Inr demo_tests, [''tests''])"
  by (simp add: generate_test_code_def tests_host_def demo_host_def demo_world_def)

lemma demo_tests_run_result:
  "fst demo_tests_run =
     Inr ([\<lparr>tr_success = False, message = ''AssertionError'', tr_test_code = ''assert False'',
             tr_original_code_path = ''a.py''\<rparr>,
           \<lparr>tr_success = False, message = ''AssertionError'', tr_test_code = ''assert 1 == 2'',
             tr_original_code_path = ''c.py''\<rparr>],
          [\<lparr>tr_success = True, message = ''ok'', tr_test_code = ''assert True'',
             tr_original_code_path = ''b.py''\<rparr>])"
  by (simp add: demo_tests_run_def tests_defs demo_defs)

section \<open>Malformed responses of the language model\<close>

lemma generate_test_code_malformed:
  assumes "llm_generate h (tests_prompt h gc) [] x0 = (Inr response, x1)"
    and "json_loads h response = None
         \<or> (\<exists>parsed e. json_loads h response = Some parsed \<and> parse_tests h parsed = Inl e)"
  shows "\<exists>e. generate_test_code h gc x0 = (Inl e, x1)"
  using assms by (auto simp: generate_test_code_def)

section \<open>The repair round\<close>

lemma repair_each_append:
  "repair_each h task (before @ t # after) gc x =
     (case repair_each h task before gc x of
        (Inl e, x') \<Rightarrow> (Inl e, x')
      | (Inr gc', x') \<Rightarrow>
          (case modify_code_based_on_test h gc' (tr_test_code t) (message t) task x' of
             (Inl e, x'') \<Rightarrow> (Inl e, x'')
           | (Inr gc'', x'') \<Rightarrow> repair_each h task after gc'' x''))"
proof (induction before arbitrary: gc x)
  case Nil
  show ?case by simp
next
  case (Cons b bs)
  obtain r x1 where m: "modify_code_based_on_test h gc (tr_test_code b) (message b) task x = (r, x1)"
    by (cases "modify_code_based_on_test h gc (tr_test_code b) (message b) task x")
  show ?case
  proof (cases r)
    case (Inl e)
    with m show ?thesis by simp
  next
    case (Inr gc1)
    with m Cons.IH[of gc1 x1] show ?thesis by simp
  qed
qed

section \<open>A concrete repair round\<close>

lemma demo_tests_run_ext:
  "ext (snd (snd demo_tests_run)) = [''tests'', ''assert False'', ''assert True'', ''assert 1 == 2'']"
  by (simp add: demo_tests_run_def tests_defs demo_defs)

lemma demo_tests_run_triple:
  "run_tests tests_host (modified_code demo_vars) [] (tester_executor demo_agent, interp demo_agent)
     = (Inr ([demo_failed_a] @ [demo_failed_c], [demo_passed_b]),
        fst (snd demo_tests_run), snd (snd demo_tests_run))"
  using demo_tests_run_result triple_collapse[of demo_tests_run]
  unfolding demo_tests_run_def
  by (simp add: demo_vars_def demo_agent_def demo_failed_a_def demo_failed_c_def demo_passed_b_def)

lemma demo_first_repair:
  "repair_each tests_host demo_task [demo_failed_a] (modified_code demo_vars)
       (ext (snd (snd demo_tests_run)))
     = (Inr \<lparr>code_changes = [\<lparr>code = ''repair assert False'', path = ''a.py''\<rparr>]\<rparr>,
        [''tests'', ''assert False'', ''assert True'', ''assert 1 == 2'', ''repair assert False''])"
  by (simp add: demo_tests_run_ext modify_code_based_on_test_def tests_host_def demo_host_def
        demo_failed_a_def)

lemma demo_last_repair:
  "modify_code_based_on_test tests_host
       \<lparr>code_changes = [\<lparr>code = ''repair assert False'', path = ''a.py''\<rparr>]\<rparr>
       (tr_test_code demo_failed_c) (message demo_failed_c) demo_task
       [''tests'', ''assert False'', ''assert True'', ''assert 1 == 2'', ''repair assert False'']
     = (Inr \<lparr>code_changes = [\<lparr>code = ''repair assert 1 == 2'', path = ''a.py''\<rparr>]\<rparr>,
        [''tests'', ''assert False'', ''assert True'', ''assert 1 == 2'', ''repair assert False'',
         ''repair assert 1 == 2''])"
  by (simp add: modify_code_based_on_test_def tests_host_def demo_host_def demo_failed_c_def)

section \<open>The bound on the repair loop\<close>

lemma repair_rounds_reflect_iteration [simp]:
  "repair_rounds (reflect (iteration_thought i n) a) = Suc (repair_rounds a)"
  by (simp add: repair_rounds_def reflect_def iteration_thought_def)

lemma repair_rounds_reflect_passed [simp]:
  "repair_rounds (reflect ''All tests passed successfully.'' a) = repair_rounds a"
  by (simp add: repair_rounds_def reflect_def)

lemma repair_rounds_reflect_maximum [simp]:
  "repair_rounds (reflect ''Maximum iterations reached. Some tests are still failing.'' a)
     = repair_rounds a"
  by (simp add: repair_rounds_def reflect_def)

lemma repair_rounds_reflect_modifying [simp]:
  "repair_rounds (reflect (''Modifying code in files: '' @ s) a) = repair_rounds a"
  by (simp add: repair_rounds_def reflect_def)

lemma repair_rounds_update [simp]:
  "repair_rounds (a\<lparr>tester_executor := ex\<rparr>) = repair_rounds a"
  "repair_rounds (a\<lparr>interp := w\<rparr>) = repair_rounds a"
  by (simp_all add: repair_rounds_def)

section \<open>Hosts on which nothing raises\<close>

lemma never_raises_run:
  assumes "never_raises h"
  shows "\<exists>r s'. run h c cb s = (Inr r, s')"
proof -
  obtain ex w where s: "s = (ex, w)" by (cases s)
  from assms obtain d x where mk: "mkdtemp h (ext w) = (Inr d, x)"
    unfolding never_raises_def by blast
  define w0 where "w0 = w\<lparr>dirs := insert d (dirs w), ext := x\<rparr>"
  have wf: "\<And>p c y. fst (write_codebase_file h d p c y) = None"
    using assms unfolding never_raises_def by blast
  have wm: "\<And>c y. fst (write_main_file h d c y) = None"
    using assms unfolding never_raises_def by blast
  have ap: "\<And>c. \<exists>tree. ast_parse h c = Inr tree"
    using assms unfolding never_raises_def by blast
  have wcb: "fst (write_codebase h d cb y) = None" for y
  proof (induction cb arbitrary: y)
    case Nil
    show ?case by simp
  next
    case (Cons pc rest)
    obtain p c' where pc: "pc = (p, c')" by (cases pc)
    obtain o1 y1 where w1: "write_codebase_file h d p c' y = (o1, y1)"
      by (cases "write_codebase_file h d p c' y")
    with wf[of p c' y] have "o1 = None" by simp
    with pc w1 Cons.IH[of y1] show ?case by simp
  qed
  show ?thesis
  proof (cases rule: run_body_cases[where h=h and d=d and cb=cb and w=w0 and c=c and ex=ex])
    case (write_fails e y)
    with wcb[of "ext w0"] show ?thesis by simp
  next
    case (main_fails e y y')
    with wm[of c y] show ?thesis by simp
  next
    case (parse_fails e y y')
    with ap[of c] show ?thesis by auto
  next
    case (runs y y' imps ex1 w1)
    from run_in_dir[OF mk run_body_runs[OF runs, unfolded w0_def]] s
    show ?thesis by blast
  qed
qed

lemma never_raises_run_each:
  assumes "never_raises h"
  shows "\<exists>lists s'. run_each h gc cb tests acc s = (Inr lists, s')"
proof (induction tests arbitrary: acc s)
  case Nil
  show ?case by simp
next
  case (Cons t ts)
  obtain u p where acc: "acc = (u, p)" by (cases acc)
  from never_raises_run[OF assms, of "test_code t" "updated_codebase gc cb" s]
  obtain r s1 where r: "run h (test_code t) (updated_codebase gc cb) s = (Inr r, s1)" by blast
  show ?case
  proof (cases "success r")
    case True
    with acc r Cons.IH[of _ s1] show ?thesis by (simp add: Let_def)
  next
    case False
    with acc r Cons.IH[of _ s1] show ?thesis by (simp add: Let_def)
  qed
qed

lemma never_raises_generate_test_code:
  assumes "never_raises h"
  shows "\<exists>tests x'. generate_test_code h gc x = (Inr tests, x')"
proof -
  from assms obtain response x' where
    l: "llm_generate h (tests_prompt h gc) [] x = (Inr response, x')"
    unfolding never_raises_def by blast
  from assms obtain parsed where j: "json_loads h response = Some parsed"
    unfolding never_raises_def by (metis option.exhaust)
  from assms obtain tests where p: "parse_tests h parsed = Inr tests"
    unfolding never_raises_def by blast
  from l j p show ?thesis by (simp add: generate_test_code_def)
qed

lemma never_raises_run_tests:
  assumes "never_raises h"
  shows "\<exists>lists s'. run_tests h gc cb s = (Inr lists, s')"
proof -
  obtain ex w where s: "s = (ex, w)" by (cases s)
  from never_raises_generate_test_code[OF assms, of gc "ext w"] obtain tests x where
    g: "generate_test_code h gc (ext w) = (Inr tests, x)" by blast
  from never_raises_run_each[OF assms, of gc cb tests "([], [])" "(ex, w\<lparr>ext := x\<rparr>)"] s g
  show ?thesis by (simp add: run_tests_def)
qed

lemma never_raises_llm_code:
  assumes "never_raises h"
  shows "\<exists>gc x'. (case llm_generate h up sp x of
                     (Inl e, x') \<Rightarrow> (Inl e, x')
                   | (Inr response, x') \<Rightarrow> (parse_generated_code h response, x')) = (Inr gc, x')"
proof -
  from assms obtain response x' where l: "llm_generate h up sp x = (Inr response, x')"
    unfolding never_raises_def by blast
  from assms obtain gc where p: "parse_generated_code h response = Inr gc"
    unfolding never_raises_def by blast
  from l p show ?thesis by simp
qed


lemma never_raises_modify_code_based_on_test:
  assumes "never_raises h"
  shows "\<exists>gc' x'. modify_code_based_on_test h gc test test_result task x = (Inr gc', x')"
proof -
  obtain up sp where p: "repair_prompt h gc test test_result task = (up, sp)"
    by (cases "repair_prompt h gc test test_result task")
  from never_raises_llm_code[OF assms, of up sp x] p show ?thesis
    by (simp add: modify_code_based_on_test_def)
qed

lemma never_raises_repair_each:
  assumes "never_raises h"
  shows "\<exists>gc' x'. repair_each h task tests gc x = (Inr gc', x')"
proof (induction tests arbitrary: gc x)
  case Nil
  show ?case by simp
next
  case (Cons t ts)
  from never_raises_modify_code_based_on_test[OF assms, of gc "tr_test_code t" "message t" task x]
  obtain gc1 x1 where
    "modify_code_based_on_test h gc (tr_test_code t) (message t) task x = (Inr gc1, x1)" by blast
  with Cons.IH[of gc1 x1] show ?case by simp
qed


section \<open>Uninstalling after installing\<close>

lemma unpatch_fold_apply:
  "fold (\<lambda>module_name sm. if module_name \<in> dom sm then sm(module_name := None) else sm) ns sm
     = (\<lambda>n. if n \<in> set ns then None else sm n)"
proof (induction ns arbitrary: sm)
  case Nil
  show ?case by simp
next
  case (Cons k ns)
  let ?f = "\<lambda>module_name sm. if module_name \<in> dom sm then sm(module_name := None) else sm"
  have eq: "?f k sm = sm(k := None)"
    by (auto simp: fun_eq_iff domIff)
  have "fold ?f (k # ns) sm = fold ?f ns (?f k sm)" by simp
  also have "\<dots> = fold ?f ns (sm(k := None))" by (simp only: eq)
  also have "\<dots> = (\<lambda>n. if n \<in> set ns then None else (sm(k := None)) n)"
    by (rule Cons.IH)
  also have "\<dots> = (\<lambda>n. if n \<in> set (k # ns) then None else sm n)"
    by (auto simp: fun_eq_iff)
  finally show ?case .
qed

lemma patch_fold_other:
  "n \<notin> fst ` set d \<Longrightarrow>
     fold (\<lambda>(module_name, mock_module) sm. sm(module_name \<mapsto> StandIn mock_module)) d sm n = sm n"
  by (induction d arbitrary: sm) (auto split: prod.splits)

lemma unpatch_after_patch:
  assumes "sys_modules w2 = sys_modules (patch_modules ex w1)"
  shows "sys_modules (unpatch_modules ex w2)
           = (\<lambda>n. if n \<in> set (dict_keys (mocked_modules ex)) then None else sys_modules w1 n)"
proof
  fix n
  show "sys_modules (unpatch_modules ex w2) n
          = (if n \<in> set (dict_keys (mocked_modules ex)) then None else sys_modules w1 n)"
  proof (cases "n \<in> set (dict_keys (mocked_modules ex))")
    case True
    then show ?thesis by (simp add: unpatch_modules_def unpatch_fold_apply)
  next
    case False
    then have "n \<notin> fst ` set (mocked_modules ex)" by (simp add: dict_keys_def)
    from patch_fold_other[OF this] False assms show ?thesis
      by (simp add: unpatch_modules_def unpatch_fold_apply patch_modules_def)
  qed
qed

lemma demo_numpy_again_run_result:
  "fst demo_numpy_again_run
     = Inr \<lparr>success = True, output_text = [], er_mocked_modules = [''numpy'']\<rparr>"
  by (simp add: demo_numpy_again_run_def demo_numpy_run_def demo_defs)

lemma demo_numpy_again_run_keys:
  "dict_keys (mocked_modules (fst (snd demo_numpy_again_run))) = [''numpy'']"
  by (simp add: demo_numpy_again_run_def demo_numpy_run_def demo_defs)

lemma demo_syntax_run_result:
  "fst demo_syntax_run = Inl (SyntaxError ''invalid syntax'')"
  by (simp add: demo_syntax_run_def demo_defs)

section \<open>The entries added to the stand-in cache\<close>

lemma mock_each_next_id_mono: "next_id w \<le> next_id (snd (mock_each imps cb (ex, w)))"
  using mock_each_keys[of imps cb ex w] by auto

lemma mock_each_entries:
  "(n, m) \<in> set (mocked_modules (fst (mock_each imps cb (ex, w)))) \<Longrightarrow>
     (n, m) \<in> set (mocked_modules ex)
     \<or> (mock_name m = n \<and> mock_file m = ''/mock/'' @ n @ ''.py''
        \<and> mock_path m = [''/mock/'' @ n]
        \<and> mock_loader m = mock_id m + 1 \<and> mock_spec m = mock_id m + 2
        \<and> next_id w \<le> mock_id m
        \<and> mock_id m < next_id (snd (mock_each imps cb (ex, w))))"
proof (induction imps arbitrary: ex w)
  case Nil
  then show ?case by simp
next
  case (Cons k imps)
  show ?case
  proof (cases "is_external_module ex k cb \<and> \<not> dict_contains k (mocked_modules ex)")
    case False
    then have eq: "mock_each (k # imps) cb (ex, w) = mock_each imps cb (ex, w)" by auto
    from Cons.IH[of ex w] Cons.prems show ?thesis unfolding eq by simp
  next
    case True
    define mk where "mk = fst (create_mock_module k w)"
    define w1 where "w1 = snd (create_mock_module k w)"
    define ex1 where "ex1 = ex\<lparr>mocked_modules := mocked_modules ex @ [(k, mk)]\<rparr>"
    have eq: "mock_each (k # imps) cb (ex, w) = mock_each imps cb (ex1, w1)"
      using True by (simp add: mk_def w1_def ex1_def dict_set_new dict_contains_def split: prod.splits)
    have id1: "next_id w1 = next_id w + 3" by (simp add: w1_def create_mock_module_def)
    have mono: "next_id w1 \<le> next_id (snd (mock_each imps cb (ex1, w1)))"
      by (rule mock_each_next_id_mono)
    from Cons.prems have "(n, m) \<in> set (mocked_modules (fst (mock_each imps cb (ex1, w1))))"
      unfolding eq .
    from Cons.IH[OF this] consider
      (old) "(n, m) \<in> set (mocked_modules ex)"
      | (here) "(n, m) = (k, mk)"
      | (later) "mock_name m = n \<and> mock_file m = ''/mock/'' @ n @ ''.py''
        \<and> mock_path m = [''/mock/'' @ n]
        \<and> mock_loader m = mock_id m + 1 \<and> mock_spec m = mock_id m + 2
        \<and> next_id w1 \<le> mock_id m
        \<and> mock_id m < next_id (snd (mock_each imps cb (ex1, w1)))"
      by (auto simp: ex1_def)
    then show ?thesis
    proof cases
      case old
      then show ?thesis by simp
    next
      case here
      then have "n = k" "m = mk" by simp_all
      then show ?thesis unfolding eq using id1 mono
        by (simp add: mk_def create_mock_module_def)
    next
      case later
      then show ?thesis unfolding eq using id1 by simp
    qed
  qed
qed

lemma dict_set_keys_distinct:
  "distinct (dict_keys d) \<Longrightarrow> distinct (dict_keys (d @ added)) =
     (distinct (map fst added) \<and> set (map fst added) \<inter> set (dict_keys d) = {})"
  by (auto simp: dict_keys_def)

section \<open>One round of the repair loop\<close>

lemma loop_body_cases:
  obtains (raises_tests) e ex w where
      "run_tests h (modified_code v) codebase (tester_executor a, interp a) = (Inl e, ex, w)"
      "loop_body h task codebase v a = (Raises e, v, a\<lparr>tester_executor := ex, interp := w\<rparr>)"
  | (breaks) p ex w where
      "run_tests h (modified_code v) codebase (tester_executor a, interp a) = (Inr ([], p), ex, w)"
      "loop_body h task codebase v a
         = (Breaks, v\<lparr>last_tests := Some ([], p)\<rparr>,
            reflect ''All tests passed successfully.'' (a\<lparr>tester_executor := ex, interp := w\<rparr>))"
  | (raises_repair) u p ex w e x where
      "run_tests h (modified_code v) codebase (tester_executor a, interp a) = (Inr (u, p), ex, w)"
      "u \<noteq> []"
      "repair_each h task u (modified_code v) (ext w) = (Inl e, x)"
      "loop_body h task codebase v a
         = (Raises e, v\<lparr>last_tests := Some (u, p)\<rparr>,
            reflect (iteration_thought (iteration_count v) (length u))
              (a\<lparr>tester_executor := ex, interp := w\<lparr>ext := x\<rparr>\<rparr>))"
  | (continues) u p ex w gc x where
      "run_tests h (modified_code v) codebase (tester_executor a, interp a) = (Inr (u, p), ex, w)"
      "u \<noteq> []"
      "repair_each h task u (modified_code v) (ext w) = (Inr gc, x)"
      "loop_body h task codebase v a
         = (Continues,
            v\<lparr>modified_code := gc, iteration_count := Suc (iteration_count v),
               last_tests := Some (u, p)\<rparr>,
            reflect (iteration_thought (iteration_count v) (length u))
              (a\<lparr>tester_executor := ex, interp := w\<lparr>ext := x\<rparr>\<rparr>))"
proof -
  obtain rt ex w where rt:
    "run_tests h (modified_code v) codebase (tester_executor a, interp a) = (rt, ex, w)"
    by (cases "run_tests h (modified_code v) codebase (tester_executor a, interp a)")
  show thesis
  proof (cases rt)
    case (Inl e)
    with rt show ?thesis using raises_tests by (simp add: loop_body_def)
  next
    case (Inr lists)
    obtain u p where lists: "lists = (u, p)" by (cases lists)
    show ?thesis
    proof (cases "u = []")
      case True
      with rt Inr lists show ?thesis using breaks by (simp add: loop_body_def)
    next
      case False
      obtain rp x where rp: "repair_each h task u (modified_code v) (ext w) = (rp, x)"
        by (cases "repair_each h task u (modified_code v) (ext w)")
      show ?thesis
      proof (cases rp)
        case (Inl e)
        with rt \<open>rt = Inr lists\<close> lists False rp show ?thesis
          using raises_repair by (simp add: loop_body_def)
      next
        case (Inr gc)
        with rt \<open>rt = Inr lists\<close> lists False rp show ?thesis
          using continues by (simp add: loop_body_def)
      qed
    qed
  qed
qed

lemma loop_body_effect:
  assumes "loop_body h task codebase v a = (f, v', a')"
  shows "(f = Continues \<longrightarrow>
            iteration_count v' = Suc (iteration_count v)
            \<and> repair_rounds a' = Suc (repair_rounds a) \<and> last_tests v' \<noteq> None)
       \<and> (f = Breaks \<longrightarrow>
            iteration_count v' = iteration_count v \<and> modified_code v' = modified_code v
            \<and> repair_rounds a' = repair_rounds a \<and> (\<exists>p. last_tests v' = Some ([], p)))
       \<and> (\<forall>e. f = Raises e \<longrightarrow>
            iteration_count v' = iteration_count v \<and> modified_code v' = modified_code v
            \<and> repair_rounds a \<le> repair_rounds a' \<and> repair_rounds a' \<le> Suc (repair_rounds a))"
proof (cases rule: loop_body_cases[where h=h and task=task and codebase=codebase and v=v and a=a])
  case (raises_tests e ex w)
  with assms show ?thesis by auto
next
  case (breaks p ex w)
  with assms show ?thesis by auto
next
  case (raises_repair u p ex w e x)
  with assms show ?thesis by auto
next
  case (continues u p ex w gc x)
  with assms show ?thesis by auto
qed

lemma while_loop_stop:
  "\<not> iteration_count v < cap \<Longrightarrow> while_loop h task codebase cap v a = (None, v, a)"
  by (subst while_loop.simps) simp

lemma while_loop_step:
  assumes "iteration_count v < cap"
  shows "while_loop h task codebase cap v a =
           (case loop_body h task codebase v a of
              (Raises e, v', a') \<Rightarrow> (Some e, v', a')
            | (Breaks, v', a') \<Rightarrow> (None, v', a')
            | (Continues, v', a') \<Rightarrow> while_loop h task codebase cap v' a')"
  using assms by (subst while_loop.simps) simp

lemma loop_points_stop:
  "\<not> iteration_count v < cap \<Longrightarrow> loop_points h task codebase cap v a = [(v, a)]"
  by (subst loop_points.simps) simp

lemma loop_points_step:
  assumes "iteration_count v < cap"
  shows "loop_points h task codebase cap v a =
           (v, a) #
           (case loop_body h task codebase v a of
              (Raises e, v', a') \<Rightarrow> []
            | (Breaks, v', a') \<Rightarrow> []
            | (Continues, v', a') \<Rightarrow> loop_points h task codebase cap v' a')"
  using assms by (subst loop_points.simps) simp


section \<open>The points of the repair loop\<close>

lemma loop_points_head: "(v, a) \<in> set (loop_points h task codebase cap v a)"
proof (cases "iteration_count v < cap")
  case True
  from loop_points_step[OF True, of h task codebase a] show ?thesis by simp
next
  case False
  from loop_points_stop[OF False, of h task codebase a] show ?thesis by simp
qed


lemma while_loop_at_point:
  "(vk, ak) \<in> set (loop_points h task codebase cap v a) \<Longrightarrow>
     while_loop h task codebase cap vk ak = while_loop h task codebase cap v a"
proof (induction h task codebase cap v a rule: loop_points.induct)
  case (1 h task codebase cap v a)
  show ?case
  proof (cases "iteration_count v < cap")
    case False
    with "1.prems" loop_points_stop[OF False, of h task codebase a] show ?thesis by auto
  next
    case True
    obtain f v1 a1 where lb: "loop_body h task codebase v a = (f, v1, a1)"
      by (cases "loop_body h task codebase v a")
    show ?thesis
    proof (cases f)
      case (Raises e)
      with "1.prems" lb loop_points_step[OF True, of h task codebase a] show ?thesis by auto
    next
      case Breaks
      with "1.prems" lb loop_points_step[OF True, of h task codebase a] show ?thesis by auto
    next
      case Continues
      have pts: "loop_points h task codebase cap v a = (v, a) # loop_points h task codebase cap v1 a1"
        using lb Continues loop_points_step[OF True, of h task codebase a] by simp
      have wl: "while_loop h task codebase cap v a = while_loop h task codebase cap v1 a1"
        using lb Continues while_loop_step[OF True, of h task codebase a] by simp
      show ?thesis
      proof (cases "(vk, ak) = (v, a)")
        case True
        then show ?thesis by simp
      next
        case False
        with "1.prems" pts have "(vk, ak) \<in> set (loop_points h task codebase cap v1 a1)" by auto
        from "1.IH"[OF True lb[symmetric] Continues refl this] wl show ?thesis by simp
      qed
    qed
  qed
qed

lemma while_loop_no_round_raises:
  "\<forall>p \<in> set (loop_points h task codebase cap v a).
      iteration_count (fst p) < cap \<longrightarrow> \<not> round_raises h task codebase p \<Longrightarrow>
   while_loop h task codebase cap v a = (r, v', a') \<Longrightarrow>
     r = None \<and> (iteration_count v < cap \<or> last_tests v \<noteq> None \<longrightarrow> last_tests v' \<noteq> None)"
proof (induction h task codebase cap v a arbitrary: r v' a' rule: while_loop.induct)
  case (1 h task codebase cap v a)
  show ?case
  proof (cases "iteration_count v < cap")
    case False
    with "1.prems"(2) while_loop_stop[OF False, of h task codebase a] show ?thesis by auto
  next
    case True
    obtain f v1 a1 where lb: "loop_body h task codebase v a = (f, v1, a1)"
      by (cases "loop_body h task codebase v a")
    note eff = loop_body_effect[OF lb]
    have nr: "\<not> round_raises h task codebase (v, a)"
      using "1.prems"(1) loop_points_head[of v a h task codebase cap] True by auto
    show ?thesis
    proof (cases f)
      case (Raises e)
      with nr lb show ?thesis by (simp add: round_raises_def)
    next
      case Breaks
      with "1.prems"(2) lb eff while_loop_step[OF True, of h task codebase a]
      show ?thesis by auto
    next
      case Continues
      have pts: "loop_points h task codebase cap v a = (v, a) # loop_points h task codebase cap v1 a1"
        using lb Continues loop_points_step[OF True, of h task codebase a] by simp
      have step: "while_loop h task codebase cap v1 a1 = (r, v', a')"
        using "1.prems"(2) lb Continues while_loop_step[OF True, of h task codebase a] by simp
      have sub: "\<forall>p \<in> set (loop_points h task codebase cap v1 a1).
                    iteration_count (fst p) < cap \<longrightarrow> \<not> round_raises h task codebase p"
        using "1.prems"(1) pts by simp
      from "1.IH"[OF True lb[symmetric] Continues refl sub step] eff Continues
      show ?thesis by simp
    qed
  qed
qed

lemma never_raises_round:
  assumes "never_raises h"
  shows "\<not> round_raises h task codebase p"
proof -
  obtain v a where p: "p = (v, a)" by (cases p)
  show ?thesis
  proof (cases rule: loop_body_cases[where h=h and task=task and codebase=codebase and v=v and a=a])
    case (raises_tests e ex w)
    with never_raises_run_tests[OF assms, of "modified_code v" codebase "(tester_executor a, interp a)"]
    show ?thesis by auto
  next
    case (breaks q ex w)
    then show ?thesis by (simp add: round_raises_def p)
  next
    case (raises_repair u q ex w e x)
    with never_raises_repair_each[OF assms, of task u "modified_code v" "ext w"]
    show ?thesis by auto
  next
    case (continues u q ex w gc x)
    then show ?thesis by (simp add: round_raises_def p)
  qed
qed

section \<open>\<open>modify_code\<close> around its loop\<close>

lemma entry_state_fields [simp]:
  "tester_executor (entry_state task a x) = tester_executor a"
  "interp (entry_state task a x) = (interp a)\<lparr>ext := x\<rparr>"
  by (simp_all add: entry_state_def reflect_def)

lemma repair_rounds_entry_state [simp]:
  "repair_rounds (entry_state task a x) = repair_rounds a"
  unfolding entry_state_def repair_rounds_update by (rule repair_rounds_reflect_modifying)


lemma modify_code_loop:
  assumes "generate_code h task agent (ext (interp a)) = (Inr gc, x)"
  shows "modify_code h task agent codebase a =
           (case while_loop h task codebase max_iterations (entry_vars gc) (entry_state task a x) of
              (Some e, v, a1) \<Rightarrow> (Inl e, a1)
            | (None, v, a1) \<Rightarrow>
                (let a2 = (if iteration_count v = max_iterations
                           then reflect ''Maximum iterations reached. Some tests are still failing.'' a1
                           else a1)
                 in case last_tests v of
                      None \<Rightarrow>
                        (Inl (UnboundLocalError
                           ''local variable 'unsuccessful_tests' referenced before assignment''), a2)
                    | Some (unsuccessful_tests, successful_tests) \<Rightarrow>
                        (Inr \<lparr>res_task_id = task_id task,
                              res_success = (length unsuccessful_tests = 0),
                              res_output = (if unsuccessful_tests = []
                                            then ''Code modification complete''
                                            else ''Some tests are still failing''),
                              modified_files =
                                fold (\<lambda>file_change d. dict_set (path file_change) (code file_change) d)
                                     (code_changes (modified_code v)) [],
                              new_files = [],
                              test_results = Some (successful_tests @ unsuccessful_tests)\<rparr>, a2)))"
proof -
  define a0 where "a0 = reflect (''Modifying code in files: '' @ join '', '' (file_paths task)) a"
  have i0: "interp a0 = interp a" by (simp add: a0_def reflect_def)
  have gen0: "generate_code h task agent (ext (interp a0)) = (Inr gc, x)"
    using assms i0 by simp
  have es: "a0\<lparr>interp := (interp a0)\<lparr>ext := x\<rparr>\<rparr> = entry_state task a x"
    unfolding entry_state_def a0_def[symmetric] i0 ..
  show ?thesis
    unfolding modify_code_def Let_def a0_def[symmetric] gen0 prod.case sum.case es
      entry_vars_def ..
qed

lemma modify_code_loop_raises:
  assumes "generate_code h task agent (ext (interp a)) = (Inr gc, x)"
    and "while_loop h task codebase max_iterations (entry_vars gc) (entry_state task a x)
           = (Some e, v, a1)"
  shows "modify_code h task agent codebase a = (Inl e, a1)"
  unfolding modify_code_loop[OF assms(1)] assms(2) by simp




lemma while_loop_never_raises:
  "never_raises h \<Longrightarrow> fst (while_loop h task codebase cap v a) = None"
  using while_loop_no_round_raises[of h task codebase cap v a]
  by (metis never_raises_round prod.collapse)


section \<open>Concrete runs of the repair loop\<close>

lemmas loop_defs =
  modify_code_def generate_code_def while_loop.simps loop_points.simps loop_body_def
  round_raises_def entry_vars_def entry_state_def max_iterations_def
  tests_defs demo_defs demo_task_def demo_agent_def reflect_def
  repair_rounds_def iteration_thought_def modify_code_based_on_test_def Let_def

lemma bad_json_modify_code:
  "fst (modify_code bad_json_host demo_task () [] demo_agent)
     = Inl (ValueError ''Failed to parse LLM response as JSON. Raw response: tests'')"
  by (simp add: loop_defs bad_json_host_def)



section \<open>The revision that a round leaves\<close>

lemma repair_each_last:
  assumes "repair_each h task u gc x = (Inr gc', x')" and "u \<noteq> []"
  shows "\<exists>gc1 x1. repair_each h task (butlast u) gc x = (Inr gc1, x1)
           \<and> modify_code_based_on_test h gc1 (tr_test_code (last u)) (message (last u)) task x1
               = (Inr gc', x')"
proof -
  have u: "u = butlast u @ last u # []" using assms(2) by simp
  obtain r1 x1 where r1: "repair_each h task (butlast u) gc x = (r1, x1)"
    by (cases "repair_each h task (butlast u) gc x")
  have app: "repair_each h task u gc x =
     (case repair_each h task (butlast u) gc x of
        (Inl e, x') \<Rightarrow> (Inl e, x')
      | (Inr gc', x') \<Rightarrow>
          (case modify_code_based_on_test h gc' (tr_test_code (last u)) (message (last u)) task x' of
             (Inl e, x'') \<Rightarrow> (Inl e, x'')
           | (Inr gc'', x'') \<Rightarrow> repair_each h task [] gc'' x''))"
    using repair_each_append[of h task "butlast u" "last u" "[]" gc x] u by simp
  show ?thesis
  proof (cases r1)
    case (Inl e)
    with app r1 assms(1) show ?thesis by simp
  next
    case (Inr gc1)
    obtain r2 x2 where r2:
      "modify_code_based_on_test h gc1 (tr_test_code (last u)) (message (last u)) task x1 = (r2, x2)"
      by (cases "modify_code_based_on_test h gc1 (tr_test_code (last u)) (message (last u)) task x1")
    show ?thesis
    proof (cases r2)
      case (Inl e)
      with app r1 \<open>r1 = Inr gc1\<close> r2 assms(1) show ?thesis by simp
    next
      case (Inr gc2)
      with app r1 \<open>r1 = Inr gc1\<close> r2 assms(1) show ?thesis by simp
    qed
  qed
qed

lemma loop_body_last_revision:
  assumes "run_tests h (modified_code v) codebase (tester_executor a, interp a)
             = (Inr (failing @ [t], passing), ex, w)"
    and "repair_each h task failing (modified_code v) (ext w) = (Inr gc1, x1)"
    and "modify_code_based_on_test h gc1 (tr_test_code t) (message t) task x1 = (Inr gc2, x2)"
  shows "loop_body h task codebase v a
           = (Continues,
              v\<lparr>modified_code := gc2, iteration_count := Suc (iteration_count v),
                 last_tests := Some (failing @ [t], passing)\<rparr>,
              reflect (iteration_thought (iteration_count v) (length (failing @ [t])))
                (a\<lparr>tester_executor := ex, interp := w\<lparr>ext := x2\<rparr>\<rparr>))"
proof -
  have r: "repair_each h task (failing @ [t]) (modified_code v) (ext w) = (Inr gc2, x2)"
    using assms(2,3) repair_each_append[of h task failing t "[]" "modified_code v" "ext w"] by simp
  show ?thesis using assms(1) r by (simp add: loop_body_def)
qed

lemma loop_points_consecutive:
  "Suc k < length (loop_points h task codebase cap v a) \<Longrightarrow>
     iteration_count (fst (loop_points h task codebase cap v a ! k)) < cap
     \<and> loop_body h task codebase (fst (loop_points h task codebase cap v a ! k))
                                   (snd (loop_points h task codebase cap v a ! k))
         = (Continues, loop_points h task codebase cap v a ! Suc k)"
proof (induction h task codebase cap v a arbitrary: k rule: loop_points.induct)
  case (1 h task codebase cap v a)
  show ?case
  proof (cases "iteration_count v < cap")
    case False
    with "1.prems" loop_points_stop[OF False, of h task codebase a] show ?thesis by simp
  next
    case True
    obtain f v1 a1 where lb: "loop_body h task codebase v a = (f, v1, a1)"
      by (cases "loop_body h task codebase v a")
    show ?thesis
    proof (cases f)
      case (Raises e)
      with "1.prems" lb loop_points_step[OF True, of h task codebase a] show ?thesis by simp
    next
      case Breaks
      with "1.prems" lb loop_points_step[OF True, of h task codebase a] show ?thesis by simp
    next
      case Continues
      have pts: "loop_points h task codebase cap v a = (v, a) # loop_points h task codebase cap v1 a1"
        using lb Continues loop_points_step[OF True, of h task codebase a] by simp
      have hd1: "loop_points h task codebase cap v1 a1 ! 0 = (v1, a1)"
        by (cases "iteration_count v1 < cap")
           (simp_all add: loop_points_step loop_points_stop)
      show ?thesis
      proof (cases k)
        case 0
        with pts lb Continues True hd1 show ?thesis by simp
      next
        case (Suc j)
        with "1.prems" pts have "Suc j < length (loop_points h task codebase cap v1 a1)" by simp
        from "1.IH"[OF True lb[symmetric] Continues refl this] pts Suc show ?thesis by simp
      qed
    qed
  qed
qed

lemma while_loop_result_at_last_point:
  "modified_code (fst (snd (while_loop h task codebase cap v a)))
     = modified_code (fst (last (loop_points h task codebase cap v a)))
   \<and> iteration_count (fst (snd (while_loop h task codebase cap v a)))
     = iteration_count (fst (last (loop_points h task codebase cap v a)))"
proof (induction h task codebase cap v a rule: loop_points.induct)
  case (1 h task codebase cap v a)
  show ?case
  proof (cases "iteration_count v < cap")
    case False
    from while_loop_stop[OF False, of h task codebase a] loop_points_stop[OF False, of h task codebase a]
    show ?thesis by simp
  next
    case True
    obtain f v1 a1 where lb: "loop_body h task codebase v a = (f, v1, a1)"
      by (cases "loop_body h task codebase v a")
    note eff = loop_body_effect[OF lb]
    show ?thesis
    proof (cases f)
      case (Raises e)
      with lb eff loop_points_step[OF True, of h task codebase a]
        while_loop_step[OF True, of h task codebase a] show ?thesis by simp
    next
      case Breaks
      with lb eff loop_points_step[OF True, of h task codebase a]
        while_loop_step[OF True, of h task codebase a] show ?thesis by simp
    next
      case Continues
      have pts: "loop_points h task codebase cap v a = (v, a) # loop_points h task codebase cap v1 a1"
        using lb Continues loop_points_step[OF True, of h task codebase a] by simp
      have wl: "while_loop h task codebase cap v a = while_loop h task codebase cap v1 a1"
        using lb Continues while_loop_step[OF True, of h task codebase a] by simp
      have ne: "loop_points h task codebase cap v1 a1 \<noteq> []"
        using loop_points_head[of v1 a1 h task codebase cap] by auto
      from "1.IH"[OF True lb[symmetric] Continues refl] pts wl ne show ?thesis by simp
    qed
  qed
qed

lemma loop_points_first: "loop_points h task codebase cap v a ! 0 = (v, a)"
  by (cases "iteration_count v < cap") (simp_all add: loop_points_step loop_points_stop)

lemma loop_points_nonempty: "0 < length (loop_points h task codebase cap v a)"
  using loop_points_head[of v a h task codebase cap] by (cases "loop_points h task codebase cap v a") auto

section \<open>A malformed response in any round\<close>

lemma malformed_round:
  assumes llm: "llm_generate h (tests_prompt h (modified_code v)) [] (ext (interp a))
                  = (Inr response, x1)"
    and bad: "json_loads h response = None
         \<or> (\<exists>parsed e. json_loads h response = Some parsed \<and> parse_tests h parsed = Inl e)"
  shows "\<exists>e. run_tests h (modified_code v) codebase (tester_executor a, interp a)
                = (Inl e, tester_executor a, (interp a)\<lparr>ext := x1\<rparr>)
           \<and> loop_body h task codebase v a = (Raises e, v, a\<lparr>interp := (interp a)\<lparr>ext := x1\<rparr>\<rparr>)
           \<and> (json_loads h response = None \<longrightarrow>
                e = ValueError (''Failed to parse LLM response as JSON. Raw response: '' @ response))
           \<and> (\<forall>parsed e'. json_loads h response = Some parsed \<and> parse_tests h parsed = Inl e'
                  \<longrightarrow> e = e')"
proof -
  from generate_test_code_malformed[OF llm bad] obtain e where
    g: "generate_test_code h (modified_code v) (ext (interp a)) = (Inl e, x1)" by blast
  have rt: "run_tests h (modified_code v) codebase (tester_executor a, interp a)
                = (Inl e, tester_executor a, (interp a)\<lparr>ext := x1\<rparr>)"
    using g by (simp add: run_tests_def)
  have lb: "loop_body h task codebase v a = (Raises e, v, a\<lparr>interp := (interp a)\<lparr>ext := x1\<rparr>\<rparr>)"
    using rt by (simp add: loop_body_def)
  have ve: "json_loads h response = None \<longrightarrow>
      e = ValueError (''Failed to parse LLM response as JSON. Raw response: '' @ response)"
    using g llm by (auto simp: generate_test_code_def)
  have pe: "\<forall>parsed e'. json_loads h response = Some parsed \<and> parse_tests h parsed = Inl e'
                  \<longrightarrow> e = e'"
    using g llm by (auto simp: generate_test_code_def)
  show ?thesis by (intro exI[of _ e] conjI rt lb ve pe)
qed

lemma while_loop_round_raises:
  assumes "loop_body h task codebase v a = (Raises e, v', a')" and "iteration_count v < cap"
  shows "while_loop h task codebase cap v a = (Some e, v', a')"
    and "(v, a) \<in> set (loop_points h task codebase cap v0 a0) \<Longrightarrow>
           while_loop h task codebase cap v0 a0 = (Some e, v', a')"
proof -
  show w: "while_loop h task codebase cap v a = (Some e, v', a')"
    using while_loop_step[OF assms(2), of h task codebase a] assms(1) by simp
  show "while_loop h task codebase cap v0 a0 = (Some e, v', a')"
    if "(v, a) \<in> set (loop_points h task codebase cap v0 a0)"
    using while_loop_at_point[OF that] w by simp
qed

lemma late_bad_host_generate_code:
  "generate_code late_bad_host demo_task () (ext (interp demo_agent))
     = (Inr \<lparr>code_changes = [\<lparr>code = ''code'', path = ''a.py''\<rparr>]\<rparr>, [''code''])"
  by (simp add: generate_code_def late_bad_host_def tests_host_def demo_host_def demo_agent_def
        demo_world_def)

lemma late_bad_host_points:
  "Suc 0 < length (loop_points late_bad_host demo_task [] max_iterations
       (entry_vars \<lparr>code_changes = [\<lparr>code = ''code'', path = ''a.py''\<rparr>]\<rparr>)
       (entry_state demo_task demo_agent [''code'']))"
  by (simp add: loop_defs late_bad_host_def)

lemma demo_second_point_vars:
  "iteration_count (fst demo_second_point) = 1
   \<and> modified_code (fst demo_second_point)
       = \<lparr>code_changes = [\<lparr>code = ''repair assert 1 == 2'', path = ''a.py''\<rparr>]\<rparr>"
  by (simp add: demo_second_point_def loop_defs late_bad_host_def)

section \<open>Properties of the dependency classifier\<close>



section \<open>Properties of the sandbox\<close>

text \<open>
  C1. \<open>run\<close> is meant never to let an exception leave it: every error while the sandbox
  is prepared or run should come back as a result with \<open>success = False\<close> and the message
  of the exception as output, as the \<open>except Exception\<close> branch does. On a snippet that the
  parser rejects, \<open>run\<close> ends with the \<open>SyntaxError\<close> instead, because the snippet is parsed
  before the \<open>try\<close> block starts.
\<close>

theorem run_raises_syntax_error:
  "fst (run demo_host ''def ('' [] (demo_executor, demo_world))
     = Inl (SyntaxError ''invalid syntax'')"
  by (simp add: demo_defs)

text \<open>
  C2. After every call of \<open>run\<close>, whether it returns a result or ends with an exception,
  no module name that was registered during the call is a key of \<open>sys.modules\<close>, and the
  temporary directory of the call does not exist. When \<open>run\<close> returns a result, no name of
  the cache, registered in this call or in an earlier one, is a key of \<open>sys.modules\<close>, and
  every other name has the entry it had before the call. When \<open>run\<close> ends with an exception,
  \<open>sys.modules\<close> and the cache are as they were. In both cases every entry of \<open>sys.modules\<close>
  after the call was there before it.
\<close>

theorem run_cleanup:
  assumes "run h code_text codebase (ex, w) = (r, ex', w')"
  shows "(\<forall>n \<in> set (dict_keys (mocked_modules ex')) - set (dict_keys (mocked_modules ex)).
            n \<notin> dom (sys_modules w'))
       \<and> (\<forall>res. r = Inr res \<longrightarrow>
             dom (sys_modules w') \<inter> set (dict_keys (mocked_modules ex')) = {}
             \<and> sys_modules w'
                 = (\<lambda>n. if n \<in> set (dict_keys (mocked_modules ex')) then None
                        else sys_modules w n))
       \<and> (\<forall>e. r = Inl e \<longrightarrow>
             sys_modules w' = sys_modules w \<and> mocked_modules ex' = mocked_modules ex)
       \<and> (\<forall>n m. sys_modules w' n = Some m \<longrightarrow> sys_modules w n = Some m)
       \<and> (\<forall>temp_dir x. mkdtemp h (ext w) = (Inr temp_dir, x) \<longrightarrow> temp_dir \<notin> dirs w')"
proof -
  obtain t x where mk: "mkdtemp h (ext w) = (t, x)" by (cases "mkdtemp h (ext w)")
  show ?thesis
  proof (cases t)
    case (Inl e)
    with mk assms run_tmp_fails[of h w e x code_text codebase ex] show ?thesis by auto
  next
    case (Inr d)
    define w0 where "w0 = w\<lparr>dirs := insert d (dirs w), ext := x\<rparr>"
    have mk': "mkdtemp h (ext w) = (Inr d, x)" using mk Inr by simp
    have fails: "(\<exists>e. r = Inl e) \<and> ex' = ex \<and> sys_modules w' = sys_modules w \<and> d \<notin> dirs w'"
      if rb: "run_body h d code_text codebase (ex, w0) = (Inl e, ex, w0\<lparr>ext := y\<rparr>)" for e y
    proof -
      from run_in_dir[OF mk' rb[unfolded w0_def]] assms show ?thesis by auto
    qed
    have fin: ?thesis
      if f: "(\<exists>e. r = Inl e) \<and> ex' = ex \<and> sys_modules w' = sys_modules w \<and> d \<notin> dirs w'"
      using f mk' by auto
    show ?thesis
    proof (cases rule: run_body_cases[where h=h and d=d and cb=codebase and w=w0 and c=code_text and ex=ex])
      case (write_fails e y)
      from fails[OF run_body_write_fails[OF write_fails]] show ?thesis by (rule fin)
    next
      case (main_fails e y y')
      from fails[OF run_body_main_fails[OF main_fails]] show ?thesis by (rule fin)
    next
      case (parse_fails e y y')
      from fails[OF run_body_parse_fails[OF parse_fails]] show ?thesis by (rule fin)
    next
      case (runs y y' imps ex1 w1)
      let ?t = "run_try h d ex1 (patch_modules ex1 w1)"
      let ?u = "unpatch_modules ex1 (snd ?t)"
      from run_in_dir[OF mk' run_body_runs[OF runs, unfolded w0_def]] assms
      have e: "ex' = ex1" and r: "r = Inr (fst ?t)"
        and w': "w' = ?u\<lparr>dirs := dirs ?u - {d}, ext := rmtree h d (ext ?u)\<rparr>"
        by simp_all
      have "sys_modules (snd (mock_each imps codebase (ex, w0\<lparr>ext := y'\<rparr>)))
              = sys_modules (snd (ex, w0\<lparr>ext := y'\<rparr>))"
        by (rule mock_each_world(3))
      then have sm1: "sys_modules w1 = sys_modules w"
        unfolding runs(4) by (simp add: w0_def)
      have "sys_modules (snd ?t) = sys_modules (patch_modules ex1 w1)" by simp
      note uap = unpatch_after_patch[OF this]
      have sm: "sys_modules w'
                 = (\<lambda>n. if n \<in> set (dict_keys (mocked_modules ex')) then None else sys_modules w n)"
        by (subst w', subst e) (simp add: uap sm1 cong: if_cong)
      have dir: "d \<notin> dirs w'" by (subst w') simp
      have a: "dom (sys_modules w') \<inter> set (dict_keys (mocked_modules ex')) = {}"
        by (subst sm) (auto simp: domIff)
      have b: "\<forall>n m. sys_modules w' n = Some m \<longrightarrow> sys_modules w n = Some m"
        by (subst sm) (auto split: if_splits)
      from a b sm dir r mk' show ?thesis by auto
    qed
  qed
qed

theorem run_cleanup_witness:
  "''numpy'' \<in> set (dict_keys (mocked_modules (fst (snd demo_numpy_run))))
                 - set (dict_keys (mocked_modules demo_executor))
   \<and> ''numpy'' \<notin> dom (sys_modules (snd (snd demo_numpy_run)))
   \<and> mkdtemp demo_host (ext demo_world) = (Inr ''/tmp/tmpa1'', [])
   \<and> ''/tmp/tmpa1'' \<notin> dirs (snd (snd demo_numpy_run))
   \<and> ''numpy'' \<in> set (dict_keys (mocked_modules (fst (snd demo_numpy_run))))
   \<and> ''numpy'' \<in> set (dict_keys (mocked_modules (fst (snd demo_numpy_again_run))))
   \<and> ''numpy'' \<notin> dom (sys_modules (snd (snd demo_numpy_again_run)))
   \<and> sys_modules (snd (snd demo_numpy_again_run)) ''sys'' = Some (RealModule ''sys'')
   \<and> sys_modules (snd (snd demo_numpy_run)) ''sys'' = Some (RealModule ''sys'')
   \<and> fst demo_syntax_run = Inl (SyntaxError ''invalid syntax'')
   \<and> sys_modules (snd (snd demo_syntax_run)) = sys_modules demo_world
   \<and> mocked_modules (fst (snd demo_syntax_run)) = mocked_modules demo_executor"
proof -
  have run1: "run demo_host ''import numpy'' [] (demo_executor, demo_world)
      = (fst demo_numpy_run, fst (snd demo_numpy_run), snd (snd demo_numpy_run))"
    unfolding demo_numpy_run_def by (rule triple_collapse)
  have new: "''numpy'' \<in> set (dict_keys (mocked_modules (fst (snd demo_numpy_run))))
                 - set (dict_keys (mocked_modules demo_executor))"
    by (simp add: demo_numpy_run_keys) (simp add: demo_executor_def dict_keys_def)
  have mk: "mkdtemp demo_host (ext demo_world) = (Inr ''/tmp/tmpa1'', [])"
    by (simp add: demo_host_def demo_world_def)
  have run2: "run demo_host ''import numpy'' [] (fst (snd demo_numpy_run), snd (snd demo_numpy_run))
      = (Inr \<lparr>success = True, output_text = [], er_mocked_modules = [''numpy'']\<rparr>,
         fst (snd demo_numpy_again_run), snd (snd demo_numpy_again_run))"
    using demo_numpy_again_run_result triple_collapse[of demo_numpy_again_run]
    unfolding demo_numpy_again_run_def by simp
  have cached: "''numpy'' \<in> set (dict_keys (mocked_modules (fst (snd demo_numpy_again_run))))"
    by (simp add: demo_numpy_again_run_keys)
  have sys2: "sys_modules (snd (snd demo_numpy_again_run)) ''sys'' = Some (RealModule ''sys'')"
    by (simp add: demo_numpy_again_run_def demo_numpy_run_def demo_defs)
  have run3: "run demo_host ''def ('' [] (demo_executor, demo_world)
      = (Inl (SyntaxError ''invalid syntax''), fst (snd demo_syntax_run), snd (snd demo_syntax_run))"
    using demo_syntax_run_result triple_collapse[of demo_syntax_run]
    unfolding demo_syntax_run_def by simp
  note c1 = run_cleanup[OF run1] and c2 = run_cleanup[OF run2] and c3 = run_cleanup[OF run3]
  from c1 new mk have a: "''numpy'' \<notin> dom (sys_modules (snd (snd demo_numpy_run)))"
    "''/tmp/tmpa1'' \<notin> dirs (snd (snd demo_numpy_run))" by blast+
  from c2 cached have b: "''numpy'' \<notin> dom (sys_modules (snd (snd demo_numpy_again_run)))"
    by blast
  from c2 sys2 have c: "sys_modules (snd (snd demo_numpy_run)) ''sys'' = Some (RealModule ''sys'')"
    by blast
  from c3 have d: "sys_modules (snd (snd demo_syntax_run)) = sys_modules demo_world"
    "mocked_modules (fst (snd demo_syntax_run)) = mocked_modules demo_executor" by blast+
  from new mk a b c d cached sys2 demo_syntax_run_result show ?thesis by simp
qed

text \<open>
  C3. When the sandbox has been prepared and the child process is started, \<open>run\<close> returns a
  result and raises nothing: \<open>success\<close> is true exactly when the exit status of the child is
  zero, the output is the child's standard output in that case and its standard error
  otherwise, and a child that exceeds the ten seconds gives \<open>success = False\<close> with the
  output \<open>Execution timed out\<close>.
\<close>

theorem run_result_of_child:
  assumes "mkdtemp h (ext w) = (Inr temp_dir, x0)"
    and "write_codebase h temp_dir codebase x0 = (None, x1)"
    and "write_main_file h temp_dir code_text x1 = (None, x2)"
    and "ast_parse h code_text = Inr tree"
  shows "\<exists>r. fst (run h code_text codebase (ex, w)) = Inr r
           \<and> (case fst (subprocess_run h (python_command h temp_dir) 10 temp_dir x2) of
                 Completed returncode stdout stderr \<Rightarrow>
                   success r = (returncode = 0)
                   \<and> output_text r = (if returncode = 0 then stdout else stderr)
               | TimeoutExpired \<Rightarrow>
                   \<not> success r \<and> output_text r = ''Execution timed out''
               | Raised e \<Rightarrow>
                   \<not> success r \<and> output_text r = str_of_error e)"
proof -
  define imps where "imps = concat (map node_imports (walk [tree]))"
  define s1 where "s1 = mock_each imps codebase (ex, w\<lparr>dirs := insert temp_dir (dirs w), ext := x2\<rparr>)"
  have ai: "analyze_imports (ast_parse h) code_text = Inr imps"
    using assms(4) by (simp add: analyze_imports_def imps_def)
  have me: "mock_each imps codebase (ex, w\<lparr>dirs := insert temp_dir (dirs w), ext := x2\<rparr>) = (fst s1, snd s1)"
    by (simp add: s1_def)
  have ext1: "ext (snd s1) = x2"
    by (simp add: s1_def)
  let ?t = "run_try h temp_dir (fst s1) (patch_modules (fst s1) (snd s1))"
  have r: "fst (run h code_text codebase (ex, w)) = Inr (fst ?t)"
    by (rule run_runs(1)[OF assms(1,2,3) ai me])
  obtain p y where sp: "subprocess_run h (python_command h temp_dir) 10 temp_dir x2 = (p, y)"
    by (cases "subprocess_run h (python_command h temp_dir) 10 temp_dir x2")
  have "case p of
          Completed returncode stdout stderr \<Rightarrow>
            success (fst ?t) = (returncode = 0)
            \<and> output_text (fst ?t) = (if returncode = 0 then stdout else stderr)
        | TimeoutExpired \<Rightarrow> \<not> success (fst ?t) \<and> output_text (fst ?t) = ''Execution timed out''
        | Raised e \<Rightarrow> \<not> success (fst ?t) \<and> output_text (fst ?t) = str_of_error e"
    by (cases p) (simp_all add: run_try_def ext1 sp)
  with r sp show ?thesis by simp
qed

theorem run_result_of_child_witness:
  "\<exists>r. fst (run slow_host ''import numpy'' [] (demo_executor, demo_world)) = Inr r
        \<and> \<not> success r \<and> output_text r = ''Execution timed out''"
proof -
  have a: "mkdtemp slow_host (ext demo_world) = (Inr ''/tmp/tmpa1'', [])"
    by (simp add: slow_host_def demo_host_def demo_world_def)
  have b: "write_codebase slow_host ''/tmp/tmpa1'' [] [] = (None, [])"
    by simp
  have c: "write_main_file slow_host ''/tmp/tmpa1'' ''import numpy'' [] = (None, [])"
    by (simp add: slow_host_def demo_host_def)
  have d: "ast_parse slow_host ''import numpy'' = Inr (Other [Import [''numpy'']])"
    by (simp add: slow_host_def demo_host_def demo_parse_def)
  have e: "fst (subprocess_run slow_host (python_command slow_host ''/tmp/tmpa1'') 10 ''/tmp/tmpa1'' [])
             = TimeoutExpired"
    by (simp add: slow_host_def)
  from run_result_of_child[OF a b c d, of demo_executor] e show ?thesis by simp
qed

text \<open>
  C4, as the code has it. The list of stand-ins in the result is the list of all names in
  the cache of the executor: the names cached by earlier calls on the same executor,
  followed by the names registered during this call, which are the external imports of
  the snippet that were not cached yet, each once.
\<close>

theorem run_reports_cached_stand_ins:
  assumes "run h code_text codebase (ex, w) = (Inr r, ex', w')"
  shows "er_mocked_modules r = dict_keys (mocked_modules ex')
       \<and> (\<exists>imports new.
             analyze_imports (ast_parse h) code_text = Inr imports
             \<and> dict_keys (mocked_modules ex') = dict_keys (mocked_modules ex) @ new
             \<and> distinct new
             \<and> set new = {n \<in> set imports. is_external_module ex n codebase}
                           - set (dict_keys (mocked_modules ex)))"
proof -
  obtain t x where mk: "mkdtemp h (ext w) = (t, x)" by (cases "mkdtemp h (ext w)")
  show ?thesis
  proof (cases t)
    case (Inl e)
    with mk assms run_tmp_fails[of h w e x code_text codebase ex] show ?thesis by simp
  next
    case (Inr d)
    define w0 where "w0 = w\<lparr>dirs := insert d (dirs w), ext := x\<rparr>"
    have mk': "mkdtemp h (ext w) = (Inr d, x)" using mk Inr by simp
    have fails: False
      if rb: "run_body h d code_text codebase (ex, w0) = (Inl e, ex, w0\<lparr>ext := y\<rparr>)" for e y
      using run_in_dir[OF mk' rb[unfolded w0_def]] assms by simp
    show ?thesis
    proof (cases rule: run_body_cases[where h=h and d=d and cb=codebase and w=w0 and c=code_text and ex=ex])
      case (write_fails e y)
      from fails[OF run_body_write_fails[OF write_fails]] show ?thesis ..
    next
      case (main_fails e y y')
      from fails[OF run_body_main_fails[OF main_fails]] show ?thesis ..
    next
      case (parse_fails e y y')
      from fails[OF run_body_parse_fails[OF parse_fails]] show ?thesis ..
    next
      case (runs y y' imps ex1 w1)
      let ?t = "run_try h d ex1 (patch_modules ex1 w1)"
      from run_in_dir[OF mk' run_body_runs[OF runs, unfolded w0_def]] assms
      have e: "ex' = ex1" and r: "r = fst ?t" by simp_all
      have a: "er_mocked_modules r = dict_keys (mocked_modules ex')"
        using e r by simp
      from mock_each_keys[of imps codebase ex "w0\<lparr>ext := y'\<rparr>"] runs(4) e
      obtain new where
        "dict_keys (mocked_modules ex') = dict_keys (mocked_modules ex) @ new"
        "distinct new"
        "set new = {n \<in> set imps. is_external_module ex n codebase} - set (dict_keys (mocked_modules ex))"
        by auto
      with a runs(3) show ?thesis by blast
    qed
  qed
qed

theorem run_reports_cached_stand_ins_witness:
  "er_mocked_modules \<lparr>success = True, output_text = [], er_mocked_modules = [''numpy'']\<rparr>
     = dict_keys (mocked_modules (fst (snd demo_numpy_run)))
   \<and> (\<exists>imports new.
         analyze_imports (ast_parse demo_host) ''import numpy'' = Inr imports
         \<and> dict_keys (mocked_modules (fst (snd demo_numpy_run)))
             = dict_keys (mocked_modules demo_executor) @ new
         \<and> distinct new
         \<and> set new = {n \<in> set imports. is_external_module demo_executor n ([] :: string pydict)}
                       - set (dict_keys (mocked_modules demo_executor)))"
proof -
  have run: "run demo_host ''import numpy'' [] (demo_executor, demo_world)
      = (Inr \<lparr>success = True, output_text = [], er_mocked_modules = [''numpy'']\<rparr>,
         fst (snd demo_numpy_run), snd (snd demo_numpy_run))"
    using demo_numpy_run_result triple_collapse[of demo_numpy_run]
    unfolding demo_numpy_run_def by simp
  from run_reports_cached_stand_ins[OF run] show ?thesis .
qed

text \<open>
  C4 with only the names registered during the call does not hold. On the second of two
  runs on one executor the snippet imports nothing, so no name is registered during the
  call, and the result still lists \<open>numpy\<close>, which the first run registered.
\<close>

theorem stand_ins_of_earlier_call_counterexample:
  "fst demo_pass_run
     = Inr \<lparr>success = True, output_text = [], er_mocked_modules = [''numpy'']\<rparr>
   \<and> set (dict_keys (mocked_modules (fst (snd demo_pass_run))))
       - set (dict_keys (mocked_modules (fst (snd demo_numpy_run)))) = {}
   \<and> set [''numpy''] \<noteq> set (dict_keys (mocked_modules (fst (snd demo_pass_run))))
       - set (dict_keys (mocked_modules (fst (snd demo_numpy_run))))"
  by (simp add: demo_pass_run_def demo_numpy_run_def demo_defs)

section \<open>Properties of the stand-in synthesizer\<close>

text \<open>
  C8. When \<open>mock_external_modules\<close> has processed the imports of a snippet, processing them
  again changes nothing: every name finds its cached stand-in and no object is created.
  The cache keeps the entries it had and gains exactly one entry for each external name
  among the imports that was not cached, however often the snippet imports it. Each new
  entry is the stand-in made for its name, with the file and path of that name and an
  identity drawn during this call; three objects are created for each new entry, the
  stand-in, its loader and its spec. Keys that were distinct stay distinct.
\<close>

theorem stand_in_created_once:
  assumes "mock_external_modules h code_text codebase (ex, w) = (None, ex', w')"
  shows "mock_external_modules h code_text codebase (ex', w') = (None, ex', w')
       \<and> (\<exists>added. mocked_modules ex' = mocked_modules ex @ added
              \<and> distinct (map fst added)
              \<and> set (map fst added) \<inter> set (dict_keys (mocked_modules ex)) = {}
              \<and> next_id w' = next_id w + 3 * length added
              \<and> (\<exists>imports. analyze_imports (ast_parse h) code_text = Inr imports
                    \<and> set (map fst added)
                        = {n \<in> set imports. is_external_module ex n codebase}
                          - set (dict_keys (mocked_modules ex)))
              \<and> (\<forall>(n, m) \<in> set added.
                    mock_name m = n \<and> mock_file m = ''/mock/'' @ n @ ''.py''
                    \<and> mock_path m = [''/mock/'' @ n]
                    \<and> mock_loader m = mock_id m + 1 \<and> mock_spec m = mock_id m + 2
                    \<and> next_id w \<le> mock_id m \<and> mock_id m < next_id w'))
       \<and> (distinct (dict_keys (mocked_modules ex))
            \<longrightarrow> distinct (dict_keys (mocked_modules ex')))"
proof -
  from mock_external_modules_None[OF assms] obtain imps where
    ai: "analyze_imports (ast_parse h) code_text = Inr imps"
    and s: "(ex', w') = mock_each imps codebase (ex, w)" by blast
  have ex': "ex' = fst (mock_each imps codebase (ex, w))"
    and w': "w' = snd (mock_each imps codebase (ex, w))"
    using s by (metis fst_conv, metis snd_conv)
  have a: "mock_external_modules h code_text codebase (ex', w') = (None, ex', w')"
    using mock_each_idem[of imps codebase ex w] s ai
    by (simp add: mock_external_modules_def)
  from mock_each_prefix[of imps codebase ex w] obtain added where
    p: "mocked_modules ex' = mocked_modules ex @ added" unfolding ex' by blast
  from mock_each_keys[of imps codebase ex w] obtain new where
    k: "dict_keys (mocked_modules ex') = dict_keys (mocked_modules ex) @ new"
       "distinct new"
       "set new = {n \<in> set imps. is_external_module ex n codebase} - set (dict_keys (mocked_modules ex))"
       "next_id w' = next_id w + 3 * length new"
    unfolding ex' w' by blast
  have new: "map fst added = new" using p k(1) by (simp add: dict_keys_def)
  have d: "distinct (map fst added)" using new k(2) by simp
  have i: "set (map fst added) \<inter> set (dict_keys (mocked_modules ex)) = {}"
    using new k(3) by auto
  have c: "next_id w' = next_id w + 3 * length added"
    using new k(4) by (metis length_map)
  have e: "set (map fst added)
             = {n \<in> set imps. is_external_module ex n codebase} - set (dict_keys (mocked_modules ex))"
    using new k(3) by simp
  have f: "\<forall>(n, m) \<in> set added.
             mock_name m = n \<and> mock_file m = ''/mock/'' @ n @ ''.py''
             \<and> mock_path m = [''/mock/'' @ n]
             \<and> mock_loader m = mock_id m + 1 \<and> mock_spec m = mock_id m + 2
             \<and> next_id w \<le> mock_id m \<and> mock_id m < next_id w'"
  proof (intro ballI, clarify)
    fix n m assume nm: "(n, m) \<in> set added"
    then have in': "(n, m) \<in> set (mocked_modules (fst (mock_each imps codebase (ex, w))))"
      using p unfolding ex' by simp
    have "n \<in> set (map fst added)" using nm by force
    with i have "n \<notin> set (dict_keys (mocked_modules ex))" by blast
    then have "(n, m) \<notin> set (mocked_modules ex)" by (force simp: dict_keys_def)
    with mock_each_entries[OF in']
    show "mock_name m = n \<and> mock_file m = ''/mock/'' @ n @ ''.py''
             \<and> mock_path m = [''/mock/'' @ n]
             \<and> mock_loader m = mock_id m + 1 \<and> mock_spec m = mock_id m + 2
             \<and> next_id w \<le> mock_id m \<and> mock_id m < next_id w'"
      unfolding w' by blast
  qed
  have g: "distinct (dict_keys (mocked_modules ex)) \<longrightarrow> distinct (dict_keys (mocked_modules ex'))"
    using dict_set_keys_distinct[of "mocked_modules ex" added] d i p by simp
  from a p d i c ai e f g show ?thesis by blast
qed

theorem stand_in_created_once_witness:
  "mock_external_modules demo_host ''import numpy.linalg; import numpy'' ([] :: string pydict)
       (fst (snd demo_twice_import), snd (snd demo_twice_import))
     = (None, fst (snd demo_twice_import), snd (snd demo_twice_import))
   \<and> distinct (dict_keys (mocked_modules demo_executor))
   \<and> distinct (dict_keys (mocked_modules (fst (snd demo_twice_import))))
   \<and> next_id (snd (snd demo_twice_import)) = 3
   \<and> mocked_modules (fst (snd demo_twice_import))
       = [(''numpy'', \<lparr>mock_id = 0, mock_name = ''numpy'', mock_file = ''/mock/numpy.py'',
                       mock_path = [''/mock/numpy''], mock_loader = 1, mock_spec = 2\<rparr>)]"
proof -
  have none: "fst demo_twice_import = None"
    by (simp add: demo_twice_import_def demo_defs)
  have run: "mock_external_modules demo_host ''import numpy.linalg; import numpy''
               ([] :: string pydict) (demo_executor, demo_world)
      = (None, fst (snd demo_twice_import), snd (snd demo_twice_import))"
    using none triple_collapse[of demo_twice_import] unfolding demo_twice_import_def by simp
  have three: "next_id (snd (snd demo_twice_import)) = 3"
    by (simp add: demo_twice_import_def demo_defs)
  have entry: "mocked_modules (fst (snd demo_twice_import))
       = [(''numpy'', \<lparr>mock_id = 0, mock_name = ''numpy'', mock_file = ''/mock/numpy.py'',
                       mock_path = [''/mock/numpy''], mock_loader = 1, mock_spec = 2\<rparr>)]"
    by (simp add: demo_twice_import_def demo_defs)
  have d0: "distinct (dict_keys (mocked_modules demo_executor))"
    by (simp add: demo_executor_def dict_keys_def)
  note th = stand_in_created_once[OF run]
  note again = th[THEN conjunct1]
  from th d0 have d1: "distinct (dict_keys (mocked_modules (fst (snd demo_twice_import))))"
    by blast
  show ?thesis by (intro conjI again d0 d1 three entry)
qed

section \<open>Properties of the tester\<close>

text \<open>
  C10. When \<open>run_tests\<close> returns its pair of lists, there is one outcome for each generated
  test, in the order of the tests, each carrying the code and the path of its test and
  the success that the sandbox reported for it; the first list of the pair holds exactly
  the outcomes with \<open>success = False\<close>, the second exactly the others, both in that order.
\<close>

theorem run_tests_partition:
  assumes "generate_test_code h gc (ext w) = (Inr tests, x)"
    and "run_tests h gc codebase (ex, w) = (Inr (unsuccessful_tests, successful_tests), s')"
  shows "\<exists>rs. sandbox_outcomes h gc codebase tests (ex, w\<lparr>ext := x\<rparr>) = (Inr rs, s')
           \<and> length rs = length tests
           \<and> map tr_test_code rs = map test_code tests
           \<and> map tr_original_code_path rs = map original_code_path tests
           \<and> unsuccessful_tests = filter (\<lambda>r. \<not> tr_success r) rs
           \<and> successful_tests = filter tr_success rs
           \<and> length unsuccessful_tests + length successful_tests = length tests"
proof -
  have re: "run_each h gc codebase tests ([], []) (ex, w\<lparr>ext := x\<rparr>)
              = (Inr (unsuccessful_tests, successful_tests), s')"
    using assms by (simp add: run_tests_def)
  obtain q s2 where q: "sandbox_outcomes h gc codebase tests (ex, w\<lparr>ext := x\<rparr>) = (q, s2)"
    by (cases "sandbox_outcomes h gc codebase tests (ex, w\<lparr>ext := x\<rparr>)")
  show ?thesis
  proof (cases q)
    case (Inl e)
    with q re run_each_partition[of h gc codebase tests "[]" "[]" "(ex, w\<lparr>ext := x\<rparr>)"]
    show ?thesis by simp
  next
    case (Inr rs)
    with q re run_each_partition[of h gc codebase tests "[]" "[]" "(ex, w\<lparr>ext := x\<rparr>)"]
    have e: "s2 = s'" "unsuccessful_tests = filter (\<lambda>r. \<not> tr_success r) rs"
      "successful_tests = filter tr_success rs" by simp_all
    from sandbox_outcomes_shape[of h gc codebase tests "(ex, w\<lparr>ext := x\<rparr>)" rs s2] q Inr
    have m: "map tr_test_code rs = map test_code tests"
      "map tr_original_code_path rs = map original_code_path tests" by simp_all
    from m(1) have l: "length rs = length tests" by (metis length_map)
    have "length (filter (\<lambda>r. \<not> tr_success r) rs) + length (filter tr_success rs) = length rs"
      using sum_length_filter_compl[of tr_success rs] by simp
    with q Inr e m l show ?thesis by simp
  qed
qed

theorem run_tests_partition_witness:
  "\<exists>rs. sandbox_outcomes tests_host demo_code [] demo_tests
            (demo_executor, demo_world\<lparr>ext := [''tests'']\<rparr>) = (Inr rs, snd demo_tests_run)
        \<and> length rs = length demo_tests
        \<and> map tr_test_code rs = map test_code demo_tests
        \<and> map tr_original_code_path rs = map original_code_path demo_tests
        \<and> [\<lparr>tr_success = False, message = ''AssertionError'', tr_test_code = ''assert False'',
              tr_original_code_path = ''a.py''\<rparr>,
            \<lparr>tr_success = False, message = ''AssertionError'', tr_test_code = ''assert 1 == 2'',
              tr_original_code_path = ''c.py''\<rparr>] = filter (\<lambda>r. \<not> tr_success r) rs
        \<and> [\<lparr>tr_success = True, message = ''ok'', tr_test_code = ''assert True'',
              tr_original_code_path = ''b.py''\<rparr>] = filter tr_success rs"
proof -
  have run: "run_tests tests_host demo_code [] (demo_executor, demo_world)
      = (Inr ([\<lparr>tr_success = False, message = ''AssertionError'', tr_test_code = ''assert False'',
                 tr_original_code_path = ''a.py''\<rparr>,
               \<lparr>tr_success = False, message = ''AssertionError'', tr_test_code = ''assert 1 == 2'',
                 tr_original_code_path = ''c.py''\<rparr>],
              [\<lparr>tr_success = True, message = ''ok'', tr_test_code = ''assert True'',
                 tr_original_code_path = ''b.py''\<rparr>]), snd demo_tests_run)"
    using demo_tests_run_result prod.collapse[of demo_tests_run]
    unfolding demo_tests_run_def by simp
  from run_tests_partition[OF demo_generate_tests run] show ?thesis by blast
qed

section \<open>Properties of the repair loop\<close>




text \<open>
  C7. In a repair round the failing tests are taken in the order of the list that
  \<open>run_tests\<close> returned: the revision for a test is requested after the revisions for the
  tests before it, and before those for the tests after it. When a round has one or more
  failing tests and no request raises, the round ends with the revision produced for the
  last failing test as the whole of the current code, with the counter incremented; the
  loop goes on from there, and when the counter has then reached the cap the loop ends
  with that revision as its code. In a run of the loop this holds of every round that is
  followed by another evaluation of the loop condition, and the code with which the loop
  ends is the code at its last evaluation of the condition.
\<close>

theorem last_revision_replaces_code:
  "repair_each h task (before @ t # after) gc x =
     (case repair_each h task before gc x of
        (Inl e, x') \<Rightarrow> (Inl e, x')
      | (Inr gc', x') \<Rightarrow>
          (case modify_code_based_on_test h gc' (tr_test_code t) (message t) task x' of
             (Inl e, x'') \<Rightarrow> (Inl e, x'')
           | (Inr gc'', x'') \<Rightarrow> repair_each h task after gc'' x''))
   \<and> (run_tests h (modified_code v) codebase (tester_executor a, interp a)
            = (Inr (failing @ [t], passing), ex, w)
        \<and> repair_each h task failing (modified_code v) (ext w) = (Inr gc1, x1)
        \<and> modify_code_based_on_test h gc1 (tr_test_code t) (message t) task x1 = (Inr gc2, x2)
        \<longrightarrow> (let v1 = v\<lparr>modified_code := gc2,
                           iteration_count := Suc (iteration_count v),
                           last_tests := Some (failing @ [t], passing)\<rparr>;
                  a1 = reflect (iteration_thought (iteration_count v) (length (failing @ [t])))
                         (a\<lparr>tester_executor := ex, interp := w\<lparr>ext := x2\<rparr>\<rparr>)
              in loop_body h task codebase v a = (Continues, v1, a1)
                 \<and> (iteration_count v < cap \<longrightarrow>
                      while_loop h task codebase cap v a = while_loop h task codebase cap v1 a1
                      \<and> loop_points h task codebase cap v a
                          = (v, a) # loop_points h task codebase cap v1 a1)
                 \<and> (Suc (iteration_count v) = cap \<longrightarrow>
                      while_loop h task codebase cap v a = (None, v1, a1))))
   \<and> (\<forall>k. Suc k < length (loop_points h task codebase cap v a) \<longrightarrow>
          (\<exists>failing t passing ex w gc1 x1 x2.
             run_tests h (modified_code (fst (loop_points h task codebase cap v a ! k))) codebase
                 (tester_executor (snd (loop_points h task codebase cap v a ! k)),
                  interp (snd (loop_points h task codebase cap v a ! k)))
               = (Inr (failing @ [t], passing), ex, w)
             \<and> repair_each h task failing
                   (modified_code (fst (loop_points h task codebase cap v a ! k))) (ext w)
                 = (Inr gc1, x1)
             \<and> modify_code_based_on_test h gc1 (tr_test_code t) (message t) task x1
                 = (Inr (modified_code (fst (loop_points h task codebase cap v a ! Suc k))), x2)))
   \<and> modified_code (fst (snd (while_loop h task codebase cap v a)))
       = modified_code (fst (last (loop_points h task codebase cap v a)))"
proof (intro conjI impI allI)
  show "repair_each h task (before @ t # after) gc x =
     (case repair_each h task before gc x of
        (Inl e, x') \<Rightarrow> (Inl e, x')
      | (Inr gc', x') \<Rightarrow>
          (case modify_code_based_on_test h gc' (tr_test_code t) (message t) task x' of
             (Inl e, x'') \<Rightarrow> (Inl e, x'')
           | (Inr gc'', x'') \<Rightarrow> repair_each h task after gc'' x''))"
    by (rule repair_each_append)
next
  assume A: "run_tests h (modified_code v) codebase (tester_executor a, interp a)
            = (Inr (failing @ [t], passing), ex, w)
        \<and> repair_each h task failing (modified_code v) (ext w) = (Inr gc1, x1)
        \<and> modify_code_based_on_test h gc1 (tr_test_code t) (message t) task x1 = (Inr gc2, x2)"
  define v1 where "v1 = v\<lparr>modified_code := gc2,
                           iteration_count := Suc (iteration_count v),
                           last_tests := Some (failing @ [t], passing)\<rparr>"
  define a1 where "a1 = reflect (iteration_thought (iteration_count v) (length (failing @ [t])))
                         (a\<lparr>tester_executor := ex, interp := w\<lparr>ext := x2\<rparr>\<rparr>)"
  have lb: "loop_body h task codebase v a = (Continues, v1, a1)"
    unfolding v1_def a1_def
    by (rule loop_body_last_revision[OF conjunct1[OF A] conjunct1[OF conjunct2[OF A]]
               conjunct2[OF conjunct2[OF A]]])
  have wl: "while_loop h task codebase cap v a = while_loop h task codebase cap v1 a1"
    and pts: "loop_points h task codebase cap v a = (v, a) # loop_points h task codebase cap v1 a1"
    if lt: "iteration_count v < cap"
    using while_loop_step[OF lt, of h task codebase a]
      loop_points_step[OF lt, of h task codebase a] lb by simp_all
  have fin: "while_loop h task codebase cap v a = (None, v1, a1)"
    if c: "Suc (iteration_count v) = cap"
  proof -
    from c have lt: "iteration_count v < cap" by simp
    have "\<not> iteration_count v1 < cap" using c by (simp add: v1_def)
    from while_loop_stop[OF this, of h task codebase a1] wl[OF lt] show ?thesis by simp
  qed
  show "let v1 = v\<lparr>modified_code := gc2,
                           iteration_count := Suc (iteration_count v),
                           last_tests := Some (failing @ [t], passing)\<rparr>;
                  a1 = reflect (iteration_thought (iteration_count v) (length (failing @ [t])))
                         (a\<lparr>tester_executor := ex, interp := w\<lparr>ext := x2\<rparr>\<rparr>)
              in loop_body h task codebase v a = (Continues, v1, a1)
                 \<and> (iteration_count v < cap \<longrightarrow>
                      while_loop h task codebase cap v a = while_loop h task codebase cap v1 a1
                      \<and> loop_points h task codebase cap v a
                          = (v, a) # loop_points h task codebase cap v1 a1)
                 \<and> (Suc (iteration_count v) = cap \<longrightarrow>
                      while_loop h task codebase cap v a = (None, v1, a1))"
    unfolding Let_def v1_def[symmetric] a1_def[symmetric]
  proof (intro conjI impI)
    show "loop_body h task codebase v a = (Continues, v1, a1)" by (rule lb)
  next
    assume "iteration_count v < cap"
    then show "while_loop h task codebase cap v a = while_loop h task codebase cap v1 a1"
      by (rule wl)
  next
    assume "iteration_count v < cap"
    then show "loop_points h task codebase cap v a
                 = (v, a) # loop_points h task codebase cap v1 a1"
      by (rule pts)
  next
    assume "Suc (iteration_count v) = cap"
    then show "while_loop h task codebase cap v a = (None, v1, a1)" by (rule fin)
  qed
next
  fix k
  assume k: "Suc k < length (loop_points h task codebase cap v a)"
  let ?p = "loop_points h task codebase cap v a ! k"
  let ?q = "loop_points h task codebase cap v a ! Suc k"
  from loop_points_consecutive[OF k]
  have lb: "loop_body h task codebase (fst ?p) (snd ?p) = (Continues, ?q)" by simp
  show "\<exists>failing t passing ex w gc1 x1 x2.
             run_tests h (modified_code (fst ?p)) codebase
                 (tester_executor (snd ?p), interp (snd ?p))
               = (Inr (failing @ [t], passing), ex, w)
             \<and> repair_each h task failing (modified_code (fst ?p)) (ext w) = (Inr gc1, x1)
             \<and> modify_code_based_on_test h gc1 (tr_test_code t) (message t) task x1
                 = (Inr (modified_code (fst ?q)), x2)"
  proof (cases rule: loop_body_cases[where h=h and task=task and codebase=codebase
                                       and v="fst ?p" and a="snd ?p"])
    case (raises_tests e ex w)
    with lb show ?thesis by simp
  next
    case (breaks p ex w)
    with lb show ?thesis by simp
  next
    case (raises_repair u p ex w e x)
    with lb show ?thesis by simp
  next
    case (continues u p ex w gc x)
    from lb[unfolded continues(4)] have "fst ?q = (fst ?p)\<lparr>modified_code := gc,
        iteration_count := Suc (iteration_count (fst ?p)), last_tests := Some (u, p)\<rparr>"
      by (auto simp: prod_eq_iff)
    then have q: "modified_code (fst ?q) = gc" by simp
    from repair_each_last[OF continues(3,2)] obtain gc1 x1 where
      r: "repair_each h task (butlast u) (modified_code (fst ?p)) (ext w) = (Inr gc1, x1)"
         "modify_code_based_on_test h gc1 (tr_test_code (last u)) (message (last u)) task x1
            = (Inr gc, x)" by blast
    have u: "u = butlast u @ [last u]" using continues(2) by simp
    from continues(1) u have rt: "run_tests h (modified_code (fst ?p)) codebase
        (tester_executor (snd ?p), interp (snd ?p)) = (Inr (butlast u @ [last u], p), ex, w)"
      by simp
    have m: "modify_code_based_on_test h gc1 (tr_test_code (last u)) (message (last u)) task x1
               = (Inr (modified_code (fst ?q)), x)"
      using r(2) q by simp
    show ?thesis by (intro exI conjI, rule rt, rule r(1), rule m)
  qed
next
  show "modified_code (fst (snd (while_loop h task codebase cap v a)))
       = modified_code (fst (last (loop_points h task codebase cap v a)))"
    using while_loop_result_at_last_point[of h task codebase cap v a] by simp
qed

theorem last_revision_replaces_code_witness:
  "iteration_count demo_vars < max_iterations
   \<and> run_tests tests_host (modified_code demo_vars) []
         (tester_executor demo_agent, interp demo_agent)
       = (Inr ([demo_failed_a] @ [demo_failed_c], [demo_passed_b]),
          fst (snd demo_tests_run), snd (snd demo_tests_run))
   \<and> loop_body tests_host demo_task [] demo_vars demo_agent
       = (Continues, demo_vars_after, demo_agent_after)
   \<and> while_loop tests_host demo_task [] max_iterations demo_vars demo_agent
       = while_loop tests_host demo_task [] max_iterations demo_vars_after demo_agent_after
   \<and> modified_code demo_vars_after
       = \<lparr>code_changes = [\<lparr>code = ''repair assert 1 == 2'', path = ''a.py''\<rparr>]\<rparr>
   \<and> Suc 0 < length (loop_points tests_host demo_task [] max_iterations demo_vars demo_agent)
   \<and> (\<exists>failing t passing ex w gc1 x1 x2.
         run_tests tests_host
             (modified_code (fst (loop_points tests_host demo_task [] max_iterations
                                    demo_vars demo_agent ! 0))) []
             (tester_executor (snd (loop_points tests_host demo_task [] max_iterations
                                      demo_vars demo_agent ! 0)),
              interp (snd (loop_points tests_host demo_task [] max_iterations
                             demo_vars demo_agent ! 0)))
           = (Inr (failing @ [t], passing), ex, w)
         \<and> repair_each tests_host demo_task failing
               (modified_code (fst (loop_points tests_host demo_task [] max_iterations
                                      demo_vars demo_agent ! 0))) (ext w)
             = (Inr gc1, x1)
         \<and> modify_code_based_on_test tests_host gc1 (tr_test_code t) (message t) demo_task x1
             = (Inr (modified_code (fst (loop_points tests_host demo_task [] max_iterations
                                            demo_vars demo_agent ! Suc 0))), x2))"
proof -
  have h1: "iteration_count demo_vars < max_iterations"
    by (simp add: demo_vars_def max_iterations_def)
  note h = conjI[OF demo_tests_run_triple conjI[OF demo_first_repair demo_last_repair]]
  note th = last_revision_replaces_code
      [where h=tests_host and task=demo_task and codebase="[]" and v=demo_vars and a=demo_agent
         and cap=max_iterations and failing="[demo_failed_a]" and t=demo_failed_c
         and passing="[demo_passed_b]" and ex="fst (snd demo_tests_run)"
         and w="snd (snd demo_tests_run)"
         and ?gc1.0="\<lparr>code_changes = [\<lparr>code = ''repair assert False'', path = ''a.py''\<rparr>]\<rparr>"
         and ?x1.0="[''tests'', ''assert False'', ''assert True'', ''assert 1 == 2'',
                    ''repair assert False'']"
         and ?gc2.0="\<lparr>code_changes = [\<lparr>code = ''repair assert 1 == 2'', path = ''a.py''\<rparr>]\<rparr>"
         and ?x2.0="[''tests'', ''assert False'', ''assert True'', ''assert 1 == 2'',
                    ''repair assert False'', ''repair assert 1 == 2'']"]
  from th[THEN conjunct2, THEN conjunct1, rule_format, OF h]
  have B: "loop_body tests_host demo_task [] demo_vars demo_agent
             = (Continues, demo_vars_after, demo_agent_after)"
    "iteration_count demo_vars < max_iterations \<Longrightarrow>
       while_loop tests_host demo_task [] max_iterations demo_vars demo_agent
         = while_loop tests_host demo_task [] max_iterations demo_vars_after demo_agent_after"
    "iteration_count demo_vars < max_iterations \<Longrightarrow>
       loop_points tests_host demo_task [] max_iterations demo_vars demo_agent
         = (demo_vars, demo_agent)
           # loop_points tests_host demo_task [] max_iterations demo_vars_after demo_agent_after"
    unfolding Let_def demo_vars_after_def[symmetric] demo_agent_after_def[symmetric]
    by blast+
  have len: "Suc 0 < length (loop_points tests_host demo_task [] max_iterations demo_vars demo_agent)"
    using B(3)[OF h1]
      loop_points_nonempty[of tests_host demo_task "[]" max_iterations demo_vars_after demo_agent_after]
    by simp
  have code: "modified_code demo_vars_after
       = \<lparr>code_changes = [\<lparr>code = ''repair assert 1 == 2'', path = ''a.py''\<rparr>]\<rparr>"
    by (simp add: demo_vars_after_def)
  note F = th[THEN conjunct2, THEN conjunct2, THEN conjunct1, rule_format, OF len]
  from h1 demo_tests_run_triple B(1) B(2)[OF h1] code len F show ?thesis by (intro conjI)
qed

text \<open>
  C9. In any round, when the response to the test-generation prompt is not JSON, or is
  JSON that does not validate as a \<open>TestCodeResponse\<close>, \<open>run_tests\<close> ends with the exception
  and so does the round, the loop entered in that round, every run of the loop that
  reaches that round, and \<open>modify_code\<close> when its loop reaches it. No sandbox run takes
  place and no \<open>TestResult\<close> is made in that round; the loop variables, the executor and the
  thoughts are as they were at the start of the round, and the host is as it was right
  after that one call of the language model, so the call is not repeated. For text that
  is not JSON the exception is the \<open>ValueError\<close> of \<open>generate_test_code\<close>, otherwise it is the
  exception of the validation. In the first round of \<open>modify_code\<close> this leaves the state
  of the agent as \<open>generate_code\<close> and that one call left it, without a repair round.
\<close>

theorem malformed_test_response_propagates:
  assumes llm: "llm_generate h (tests_prompt h (modified_code v)) [] (ext (interp a))
                  = (Inr response, x1)"
    and bad: "json_loads h response = None
         \<or> (\<exists>parsed e. json_loads h response = Some parsed \<and> parse_tests h parsed = Inl e)"
  shows "\<exists>e. run_tests h (modified_code v) codebase (tester_executor a, interp a)
                = (Inl e, tester_executor a, (interp a)\<lparr>ext := x1\<rparr>)
           \<and> loop_body h task codebase v a = (Raises e, v, a\<lparr>interp := (interp a)\<lparr>ext := x1\<rparr>\<rparr>)
           \<and> (iteration_count v < cap \<longrightarrow>
                while_loop h task codebase cap v a
                  = (Some e, v, a\<lparr>interp := (interp a)\<lparr>ext := x1\<rparr>\<rparr>)
                \<and> (\<forall>v0 a0. (v, a) \<in> set (loop_points h task codebase cap v0 a0) \<longrightarrow>
                       while_loop h task codebase cap v0 a0
                         = (Some e, v, a\<lparr>interp := (interp a)\<lparr>ext := x1\<rparr>\<rparr>)))
           \<and> (iteration_count v < max_iterations \<longrightarrow>
                (\<forall>agent a0 gc x0.
                    generate_code h task agent (ext (interp a0)) = (Inr gc, x0)
                    \<and> (v, a) \<in> set (loop_points h task codebase max_iterations (entry_vars gc)
                                       (entry_state task a0 x0))
                    \<longrightarrow> modify_code h task agent codebase a0
                          = (Inl e, a\<lparr>interp := (interp a)\<lparr>ext := x1\<rparr>\<rparr>)))
           \<and> (\<forall>agent a0 gc x0.
                  generate_code h task agent (ext (interp a0)) = (Inr gc, x0)
                  \<and> v = entry_vars gc \<and> a = entry_state task a0 x0
                  \<longrightarrow> fst (modify_code h task agent codebase a0) = Inl e
                      \<and> interp (snd (modify_code h task agent codebase a0))
                          = (interp a0)\<lparr>ext := x1\<rparr>
                      \<and> tester_executor (snd (modify_code h task agent codebase a0))
                          = tester_executor a0
                      \<and> repair_rounds (snd (modify_code h task agent codebase a0))
                          = repair_rounds a0)
           \<and> (json_loads h response = None \<longrightarrow>
                e = ValueError (''Failed to parse LLM response as JSON. Raw response: '' @ response))
           \<and> (\<forall>parsed e'. json_loads h response = Some parsed \<and> parse_tests h parsed = Inl e'
                  \<longrightarrow> e = e')"
proof -
  let ?a' = "a\<lparr>interp := (interp a)\<lparr>ext := x1\<rparr>\<rparr>"
  from malformed_round[OF llm bad, of codebase task] show ?thesis
  proof (elim exE conjE)
  fix e
  assume rt: "run_tests h (modified_code v) codebase (tester_executor a, interp a)
           = (Inl e, tester_executor a, (interp a)\<lparr>ext := x1\<rparr>)"
    and lb: "loop_body h task codebase v a = (Raises e, v, ?a')"
    and ve: "json_loads h response = None \<longrightarrow>
                e = ValueError (''Failed to parse LLM response as JSON. Raw response: '' @ response)"
    and pe: "\<forall>parsed e'. json_loads h response = Some parsed \<and> parse_tests h parsed = Inl e'
                  \<longrightarrow> e = e'"
  have wl: "iteration_count v < cap \<longrightarrow>
                while_loop h task codebase cap v a = (Some e, v, ?a')
                \<and> (\<forall>v0 a0. (v, a) \<in> set (loop_points h task codebase cap v0 a0) \<longrightarrow>
                       while_loop h task codebase cap v0 a0 = (Some e, v, ?a'))"
    using while_loop_round_raises[OF lb] by blast
  have mc: "modify_code h task agent codebase a0 = (Inl e, ?a')"
    if lt: "iteration_count v < max_iterations"
      and gen: "generate_code h task agent (ext (interp a0)) = (Inr gc, x0)"
      and pt: "(v, a) \<in> set (loop_points h task codebase max_iterations (entry_vars gc)
                               (entry_state task a0 x0))"
    for agent a0 gc x0
    by (rule modify_code_loop_raises[OF gen while_loop_round_raises(2)[OF lb lt pt]])
  have mc_all: "iteration_count v < max_iterations \<longrightarrow>
                (\<forall>agent a0 gc x0.
                    generate_code h task agent (ext (interp a0)) = (Inr gc, x0)
                    \<and> (v, a) \<in> set (loop_points h task codebase max_iterations (entry_vars gc)
                                       (entry_state task a0 x0))
                    \<longrightarrow> modify_code h task agent codebase a0 = (Inl e, ?a'))"
    using mc by blast
  have first: "fst (modify_code h task agent codebase a0) = Inl e
               \<and> interp (snd (modify_code h task agent codebase a0)) = (interp a0)\<lparr>ext := x1\<rparr>
               \<and> tester_executor (snd (modify_code h task agent codebase a0)) = tester_executor a0
               \<and> repair_rounds (snd (modify_code h task agent codebase a0)) = repair_rounds a0"
    if gen: "generate_code h task agent (ext (interp a0)) = (Inr gc, x0)"
      and v: "v = entry_vars gc" and a: "a = entry_state task a0 x0"
    for agent a0 gc x0
  proof -
    have lt: "iteration_count v < max_iterations"
      by (simp add: v entry_vars_def max_iterations_def)
    have pt: "(v, a) \<in> set (loop_points h task codebase max_iterations (entry_vars gc)
                               (entry_state task a0 x0))"
      unfolding v a by (rule loop_points_head)
    from mc[OF lt gen pt] show ?thesis by (simp add: a)
  qed
  have first_all: "\<forall>agent a0 gc x0.
                  generate_code h task agent (ext (interp a0)) = (Inr gc, x0)
                  \<and> v = entry_vars gc \<and> a = entry_state task a0 x0
                  \<longrightarrow> fst (modify_code h task agent codebase a0) = Inl e
                      \<and> interp (snd (modify_code h task agent codebase a0))
                          = (interp a0)\<lparr>ext := x1\<rparr>
                      \<and> tester_executor (snd (modify_code h task agent codebase a0))
                          = tester_executor a0
                      \<and> repair_rounds (snd (modify_code h task agent codebase a0))
                          = repair_rounds a0"
    using first by blast
  show ?thesis by (intro exI[of _ e] conjI rt lb wl mc_all first_all ve pe)
  qed
qed

theorem malformed_test_response_propagates_witness:
  "Suc 0 < length (loop_points late_bad_host demo_task [] max_iterations
       (entry_vars \<lparr>code_changes = [\<lparr>code = ''code'', path = ''a.py''\<rparr>]\<rparr>)
       (entry_state demo_task demo_agent [''code'']))
   \<and> iteration_count (fst demo_second_point) = 1
   \<and> llm_generate late_bad_host
         (tests_prompt late_bad_host (modified_code (fst demo_second_point))) []
         (ext (interp (snd demo_second_point)))
       = (Inr ''repair assert 1 == 2'',
          ext (interp (snd demo_second_point)) @ [''repair assert 1 == 2''])
   \<and> json_loads late_bad_host ''repair assert 1 == 2'' = None
   \<and> modify_code late_bad_host demo_task () [] demo_agent
       = (Inl (ValueError (''Failed to parse LLM response as JSON. Raw response: ''
                            @ ''repair assert 1 == 2'')),
          (snd demo_second_point)
            \<lparr>interp := (interp (snd demo_second_point))
               \<lparr>ext := ext (interp (snd demo_second_point)) @ [''repair assert 1 == 2'']\<rparr>\<rparr>)"
proof -
  let ?x1 = "ext (interp (snd demo_second_point)) @ [''repair assert 1 == 2'']"
  have llm: "llm_generate late_bad_host
         (tests_prompt late_bad_host (modified_code (fst demo_second_point))) []
         (ext (interp (snd demo_second_point)))
       = (Inr ''repair assert 1 == 2'', ?x1)"
    by (simp add: demo_second_point_vars late_bad_host_def tests_host_def demo_host_def)
  have none: "json_loads late_bad_host ''repair assert 1 == 2'' = None"
    by (simp add: late_bad_host_def tests_host_def demo_host_def)
  have bad: "json_loads late_bad_host ''repair assert 1 == 2'' = None
         \<or> (\<exists>parsed e. json_loads late_bad_host ''repair assert 1 == 2'' = Some parsed
                \<and> parse_tests late_bad_host parsed = Inl e)"
    using none by simp
  have lt: "iteration_count (fst demo_second_point) < max_iterations"
    by (simp add: demo_second_point_vars max_iterations_def)
  have pt: "(fst demo_second_point, snd demo_second_point)
      \<in> set (loop_points late_bad_host demo_task [] max_iterations
       (entry_vars \<lparr>code_changes = [\<lparr>code = ''code'', path = ''a.py''\<rparr>]\<rparr>)
       (entry_state demo_task demo_agent [''code'']))"
    using nth_mem[OF late_bad_host_points] by (simp add: demo_second_point_def)
  from malformed_test_response_propagates[OF llm bad, of "[]" demo_task max_iterations]
  show ?thesis
  proof (elim exE conjE)
  fix e
  assume mc: "iteration_count (fst demo_second_point) < max_iterations \<longrightarrow>
           (\<forall>agent a0 gc x0.
               generate_code late_bad_host demo_task agent (ext (interp a0)) = (Inr gc, x0)
               \<and> (fst demo_second_point, snd demo_second_point)
                   \<in> set (loop_points late_bad_host demo_task [] max_iterations (entry_vars gc)
                            (entry_state demo_task a0 x0))
               \<longrightarrow> modify_code late_bad_host demo_task agent [] a0
                     = (Inl e, (snd demo_second_point)
                          \<lparr>interp := (interp (snd demo_second_point))\<lparr>ext := ?x1\<rparr>\<rparr>))"
    and ve: "json_loads late_bad_host ''repair assert 1 == 2'' = None \<longrightarrow>
               e = ValueError (''Failed to parse LLM response as JSON. Raw response: ''
                                @ ''repair assert 1 == 2'')"
  from ve none have e: "e = ValueError (''Failed to parse LLM response as JSON. Raw response: ''
                                @ ''repair assert 1 == 2'')" by blast
  from mc lt late_bad_host_generate_code pt
  have "modify_code late_bad_host demo_task () [] demo_agent
          = (Inl e, (snd demo_second_point)
               \<lparr>interp := (interp (snd demo_second_point))\<lparr>ext := ?x1\<rparr>\<rparr>)"
    by blast
  with e late_bad_host_points demo_second_point_vars llm none show ?thesis by simp
  qed
qed

end
